theory Spec2Isabelle
  imports Main "HOL-Library.AList"
begin

section \<open>Values, errors and the objects handed to the driver\<close>

text \<open>
  The development embeds the class \<open>DatabaseManager\<close> (the pool registry, the command
  executor, the retry helper, the bulk loader and the transaction coordinator). The
  \<open>mssql\<close> driver, the \<open>winston\<close> logger and the timer are outside the class: the driver
  is a parameter of every function, and every call the class makes to one of the three
  is recorded, in order, in the \<open>trace\<close> of the state.

  A thrown JavaScript \<open>Error\<close> object: its \<open>name\<close>, its \<open>message\<close> and its optional
  \<open>cause\<close>.
\<close>

datatype js_error = JsError (err_name: string) (message: string) (cause: "js_error option")

text \<open>\<^verbatim>\<open>new Error(msg)\<close>: the only kind of error the class itself constructs.\<close>

definition Error :: "string \<Rightarrow> js_error" where
  "Error msg = JsError ''Error'' msg None"

text \<open>
  The values stored in entities and bound to parameters. \<open>JsBuiltin\<close> is a function or
  object of the runtime, referred to by name.
\<close>

datatype js_value = Undefined | Null | JsNum int | JsStr string | JsBool bool | JsBuiltin string

text \<open>
  An entity is a plain object (an object literal, a parsed request body): the list is its
  own enumerable properties in iteration order, and its prototype is \<open>Object.prototype\<close>.
  \<open>object_keys\<close> is \<^verbatim>\<open>Object.keys(entity)\<close>, the own keys. \<open>entity_get\<close> is \<^verbatim>\<open>entity[key]\<close>: the own
  property if there is one, otherwise the property inherited from \<open>Object.prototype\<close>
  (\<open>__proto__\<close> reads the prototype itself), otherwise \<open>undefined\<close>.
\<close>

type_synonym entity = "(string \<times> js_value) list"

definition object_prototype :: "(string \<times> js_value) list" where
  "object_prototype =
     [(''constructor'', JsBuiltin ''Object''),
      (''__defineGetter__'', JsBuiltin ''Object.prototype.__defineGetter__''),
      (''__defineSetter__'', JsBuiltin ''Object.prototype.__defineSetter__''),
      (''hasOwnProperty'', JsBuiltin ''Object.prototype.hasOwnProperty''),
      (''__lookupGetter__'', JsBuiltin ''Object.prototype.__lookupGetter__''),
      (''__lookupSetter__'', JsBuiltin ''Object.prototype.__lookupSetter__''),
      (''isPrototypeOf'', JsBuiltin ''Object.prototype.isPrototypeOf''),
      (''propertyIsEnumerable'', JsBuiltin ''Object.prototype.propertyIsEnumerable''),
      (''toString'', JsBuiltin ''Object.prototype.toString''),
      (''valueOf'', JsBuiltin ''Object.prototype.valueOf''),
      (''__proto__'', JsBuiltin ''Object.prototype''),
      (''toLocaleString'', JsBuiltin ''Object.prototype.toLocaleString'')]"

definition object_keys :: "entity \<Rightarrow> string list" where
  "object_keys entity = map fst entity"

definition entity_get :: "entity \<Rightarrow> string \<Rightarrow> js_value" where
  "entity_get entity key =
     (case map_of entity key of
        Some v \<Rightarrow> v
      | None \<Rightarrow> (case map_of object_prototype key of Some v \<Rightarrow> v | None \<Rightarrow> Undefined))"

text \<open>
  A parameter \<^verbatim>\<open>{name, value, type?}\<close>; \<open>param_type = None\<close> is a missing (or falsy)
  \<open>type\<close> property. SQL types are referred to by name.
\<close>

record param =
  param_name :: string
  param_value :: js_value
  param_type :: "string option"

datatype command_type = Query | Execute

datatype operation = Input | Output

text \<open>
  The two call shapes of \<^verbatim>\<open>request.input\<close> and \<^verbatim>\<open>request.output\<close>: with an explicit type,
  or with the type left to the driver.
\<close>

datatype binding = Typed string string js_value | Inferred string js_value

record request =
  req_inputs :: "binding list"
  req_outputs :: "binding list"

definition new_request :: request where
  "new_request = \<lparr>req_inputs = [], req_outputs = []\<rparr>"

type_synonym config = string

text \<open>
  A \<open>ConnectionPool\<close> object as the manager holds it: its identity (the address of the
  object), the name captured by the rebound \<open>close\<close> method, and its configuration.
\<close>

record pool =
  pool_id :: nat
  hook_name :: string
  pool_config :: config

text \<open>A bulk \<open>Table\<close>: \<^verbatim>\<open>table.columns.add\<close> and \<^verbatim>\<open>table.rows.add\<close> append.\<close>

type_synonym options = "(string \<times> js_value) list"

record column =
  col_name :: string
  col_type :: string
  col_options :: "options option"

record table =
  table_name :: string
  table_columns :: "(string \<times> string \<times> options) list"
  table_rows :: "js_value list list"

definition new_Table :: "string \<Rightarrow> table" where
  "new_Table tableName = \<lparr>table_name = tableName, table_columns = [], table_rows = []\<rparr>"

definition columns_add :: "string \<Rightarrow> string \<Rightarrow> options \<Rightarrow> table \<Rightarrow> table" where
  "columns_add n t opts tbl = tbl\<lparr>table_columns := table_columns tbl @ [(n, t, opts)]\<rparr>"

definition rows_add :: "js_value list \<Rightarrow> table \<Rightarrow> table" where
  "rows_add cells tbl = tbl\<lparr>table_rows := table_rows tbl @ [cells]\<rparr>"

type_synonym result = "entity list"

section \<open>The trace of calls, the driver and the state\<close>

text \<open>
  A logged template literal is kept as its pieces: literal text, an interpolated number,
  an interpolated error, an interpolated command type.
\<close>

datatype level = Info | Warn | Err

datatype frag = Txt string | NumF int | ErrF js_error | KindF command_type

datatype event =
    Log level "frag list"
  | NewPool nat config
  | Connect nat
  | Close nat
  | RunRequest nat command_type string request
  | Bulk nat table
  | TxBegin nat
  | TxRequest nat command_type string request
  | TxCommit nat
  | TxRollback nat
  | Invoke
  | Sleep int

text \<open>
  The driver, over a state \<open>'w\<close> of its own (connections, the database). A call that can
  reject returns the error (\<open>Some e\<close>, or \<open>Inl e\<close>) and the driver's next state. Pools and
  the transaction opened on a pool are addressed by the pool's identity.
  \<open>close_settles_at\<close> is the logical time at which the promise of an underlying \<open>close\<close>
  started now settles; it orders the settlements that \<open>Promise.all\<close> observes.
  While an underlying \<open>close\<close> is in flight other callers run and look the map up; so
  \<open>pool_close_orig\<close> is given the keys that the map holds when it is called, and what the
  close and those callers do may depend on them. A driver is free to ignore them; the
  theorems below hold for every driver.
\<close>

record 'w driver =
  pool_ctor :: "nat \<Rightarrow> config \<Rightarrow> 'w \<Rightarrow> js_error option \<times> 'w"
  pool_connected :: "nat \<Rightarrow> 'w \<Rightarrow> bool"
  pool_connecting :: "nat \<Rightarrow> 'w \<Rightarrow> bool"
  pool_connect :: "nat \<Rightarrow> 'w \<Rightarrow> js_error option \<times> 'w"
  pool_close_orig :: "nat \<Rightarrow> string list \<Rightarrow> 'w \<Rightarrow> js_error option \<times> 'w"
  close_settles_at :: "nat \<Rightarrow> 'w \<Rightarrow> nat"
  bind_rejects :: "operation \<Rightarrow> binding \<Rightarrow> request \<Rightarrow> js_error option"
  request_run :: "nat \<Rightarrow> command_type \<Rightarrow> string \<Rightarrow> request \<Rightarrow> 'w \<Rightarrow> (js_error + result) \<times> 'w"
  request_bulk :: "nat \<Rightarrow> table \<Rightarrow> 'w \<Rightarrow> js_error option \<times> 'w"
  tx_begin :: "nat \<Rightarrow> 'w \<Rightarrow> js_error option \<times> 'w"
  tx_request_run :: "nat \<Rightarrow> command_type \<Rightarrow> string \<Rightarrow> request \<Rightarrow> 'w \<Rightarrow> (js_error + result) \<times> 'w"
  tx_commit :: "nat \<Rightarrow> 'w \<Rightarrow> js_error option \<times> 'w"
  tx_rollback :: "nat \<Rightarrow> 'w \<Rightarrow> js_error option \<times> 'w"

text \<open>
  The manager's state: the \<open>pools\<close> map (a JavaScript \<open>Map\<close> iterates in insertion order,
  and \<open>set\<close> on a present key keeps its place, as \<open>AList.update\<close> does), the next free
  object address, the trace and the driver's state.
\<close>

record 'w state =
  pools :: "(string \<times> pool) list"
  next_pool :: nat
  trace :: "event list"
  world :: 'w

definition logger :: "level \<Rightarrow> frag list \<Rightarrow> 'w state \<Rightarrow> 'w state" where
  "logger lvl msg s = s\<lparr>trace := trace s @ [Log lvl msg]\<rparr>"

text \<open>One driver call: record it, run it on the driver's state.\<close>

definition call :: "event \<Rightarrow> ('w \<Rightarrow> 'r \<times> 'w) \<Rightarrow> 'w state \<Rightarrow> 'r \<times> 'w state" where
  "call ev f s = (case f (world s) of (r, w) \<Rightarrow> (r, s\<lparr>trace := trace s @ [ev], world := w\<rparr>))"

section \<open>Pool registry\<close>

text \<open>
  The body of the \<open>try\<close> block of \<open>setPool\<close>. The rebound \<open>close\<close> captures \<open>name\<close>: it is
  the \<open>hook_name\<close> of the new pool object.
\<close>

definition setPool_try :: "'w driver \<Rightarrow> string \<Rightarrow> config option \<Rightarrow> 'w state \<Rightarrow> (js_error + unit) \<times> 'w state" where
  "setPool_try D name config s =
     (if name = [] \<or> config = None then (Inl (Error ''Missing configuration details''), s)
      else
        (let cfg = the config in
         case call (NewPool (next_pool s) cfg) (pool_ctor D (next_pool s) cfg) s of
           (Some e, s1) \<Rightarrow> (Inl e, s1)
         | (None, s1) \<Rightarrow>
             (let p = \<lparr>pool_id = next_pool s1, hook_name = name, pool_config = cfg\<rparr>;
                  s2 = s1\<lparr>pools := AList.update name p (pools s1), next_pool := Suc (next_pool s1)\<rparr>
              in (Inr (), logger Info [Txt ''Pool set: '', Txt name] s2))))"

definition setPool :: "'w driver \<Rightarrow> string \<Rightarrow> config option \<Rightarrow> 'w state \<Rightarrow> (js_error + unit) \<times> 'w state" where
  "setPool D name config s =
     (case setPool_try D name config s of
        (Inr u, s1) \<Rightarrow> (Inr u, s1)
      | (Inl error, s1) \<Rightarrow>
          (let s2 = (if name \<noteq> [] \<and> map_of (pools s1) name \<noteq> None
                     then (logger Err [Txt ''Error setting pool '', Txt name, Txt ''.\<newline>Closing pool...''] s1)
                            \<lparr>pools := AList.delete name (pools s1)\<rparr>
                     else s1)
           in (Inl error, logger Err [Txt ''Failed to set pool...'', ErrF error] s2)))"

text \<open>
  \<open>getPool\<close>. \<^verbatim>\<open>this.pools.get(name)!\<close> is \<open>undefined\<close> when the map has no entry, and reading
  \<open>connected\<close> of \<open>undefined\<close> throws a \<open>TypeError\<close>.
\<close>

definition getPool_try :: "'w driver \<Rightarrow> string \<Rightarrow> config option \<Rightarrow> 'w state \<Rightarrow> (js_error + pool) \<times> 'w state" where
  "getPool_try D name config s =
     (case (if map_of (pools s) name = None
            then (case config of
                    None \<Rightarrow> (Inl (Error (''Configuration for pool '' @ name @ '' not provided'')), s)
                  | Some cfg \<Rightarrow> setPool D name (Some cfg) s)
            else (Inr (), s)) of
        (Inl e, s1) \<Rightarrow> (Inl e, s1)
      | (Inr u, s1) \<Rightarrow>
          (case map_of (pools s1) name of
             None \<Rightarrow> (Inl (JsError ''TypeError'' ''Cannot read properties of undefined (reading 'connected')'' None), s1)
           | Some p \<Rightarrow>
               if \<not> pool_connected D (pool_id p) (world s1) \<and> \<not> pool_connecting D (pool_id p) (world s1)
               then (case call (Connect (pool_id p)) (pool_connect D (pool_id p)) s1 of
                       (Some e, s2) \<Rightarrow> (Inl e, s2)
                     | (None, s2) \<Rightarrow> (Inr p, s2))
               else (Inr p, s1)))"

definition getPool :: "'w driver \<Rightarrow> string \<Rightarrow> config option \<Rightarrow> 'w state \<Rightarrow> (js_error + pool) \<times> 'w state" where
  "getPool D name config s =
     (case getPool_try D name config s of
        (Inr p, s1) \<Rightarrow> (Inr p, s1)
      | (Inl error, s1) \<Rightarrow> (Inl error, logger Err [Txt ''Error getting pool '', Txt name, Txt '': '', ErrF error] s1))"

text \<open>
  The \<open>close\<close> method that \<open>setPool\<close> installs on a pool: log, delete the captured name
  from the map, then call the original \<open>close\<close>.
\<close>

definition pool_close :: "'w driver \<Rightarrow> pool \<Rightarrow> 'w state \<Rightarrow> js_error option \<times> 'w state" where
  "pool_close D p s =
     (let s1 = logger Info [Txt ''Closing pool: '', Txt (hook_name p)] s;
          s2 = s1\<lparr>pools := AList.delete (hook_name p) (pools s1)\<rparr>
      in call (Close (pool_id p)) (pool_close_orig D (pool_id p) (map fst (pools s2))) s2)"

definition closePool :: "'w driver \<Rightarrow> string \<Rightarrow> 'w state \<Rightarrow> (js_error + unit) \<times> 'w state" where
  "closePool D name s =
     (case map_of (pools s) name of
        None \<Rightarrow> (Inl (Error (''Pool '' @ name @ '' does not exist'')), s)
      | Some p \<Rightarrow>
          (case pool_close D p s of
             (Some e, s1) \<Rightarrow> (Inl e, s1)
           | (None, s1) \<Rightarrow> (Inr (), s1)))"

text \<open>
  \<open>closeAllPools\<close>. The \<open>map\<close> calls the \<open>close\<close> of every pool of the snapshot, one after
  the other (the method has no \<open>await\<close>, so each call deregisters and starts the
  underlying close before the next one runs); every call yields a promise, here the time
  at which it settles and its outcome. \<open>Promise.all\<close> fulfils when the last promise has
  fulfilled, and rejects when the first rejection happens, with that rejection's error
  (the earlier promise of the list where two settle at the same time).
\<close>

fun start_closes :: "'w driver \<Rightarrow> pool list \<Rightarrow> 'w state \<Rightarrow> (nat \<times> js_error option) list \<times> 'w state" where
  "start_closes D [] s = ([], s)"
| "start_closes D (p # ps) s =
     (let t = close_settles_at D (pool_id p) (world s) in
      case pool_close D p s of
        (r, s1) \<Rightarrow> (case start_closes D ps s1 of (rs, s2) \<Rightarrow> ((t, r) # rs, s2)))"

fun first_rejection :: "(nat \<times> js_error option) list \<Rightarrow> (nat \<times> js_error) option" where
  "first_rejection [] = None"
| "first_rejection ((t, None) # ps) = first_rejection ps"
| "first_rejection ((t, Some e) # ps) =
     (case first_rejection ps of
        None \<Rightarrow> Some (t, e)
      | Some (t', e') \<Rightarrow> if t' < t then Some (t', e') else Some (t, e))"

definition promise_all :: "(nat \<times> js_error option) list \<Rightarrow> nat \<times> (js_error + unit)" where
  "promise_all ps =
     (case first_rejection ps of
        None \<Rightarrow> (fold max (map fst ps) 0, Inr ())
      | Some (t, e) \<Rightarrow> (t, Inl e))"

definition closeAllPools_promise :: "'w driver \<Rightarrow> 'w state \<Rightarrow> (nat \<times> (js_error + unit)) \<times> 'w state" where
  "closeAllPools_promise D s =
     (case start_closes D (map snd (pools s)) s of (rs, s1) \<Rightarrow> (promise_all rs, s1))"

definition closeAllPools :: "'w driver \<Rightarrow> 'w state \<Rightarrow> (js_error + unit) \<times> 'w state" where
  "closeAllPools D s = (case closeAllPools_promise D s of ((t, r), s1) \<Rightarrow> (r, s1))"

text \<open>
  The constructor: an empty map, then \<open>setPool\<close> for every entry of the configuration
  object, in order. The promises of these calls are dropped, so a failure of \<open>setPool\<close>
  does not reach the caller of the constructor.
\<close>

definition DatabaseManager :: "'w driver \<Rightarrow> (string \<times> config option) list \<Rightarrow> 'w \<Rightarrow> 'w state" where
  "DatabaseManager D configs w =
     fold (\<lambda>(name, config) s. snd (setPool D name config s)) configs
       \<lparr>pools = [], next_pool = 0, trace = [], world = w\<rparr>"

section \<open>Command executor\<close>

text \<open>
  \<open>request.input\<close> and \<open>request.output\<close>: the driver may reject the binding (it throws),
  otherwise the binding is appended to the request.
\<close>

definition request_bind :: "'w driver \<Rightarrow> operation \<Rightarrow> binding \<Rightarrow> request \<Rightarrow> js_error + request" where
  "request_bind D operation b req =
     (case bind_rejects D operation b req of
        Some e \<Rightarrow> Inl e
      | None \<Rightarrow>
          Inr (case operation of
                 Input \<Rightarrow> req\<lparr>req_inputs := req_inputs req @ [b]\<rparr>
               | Output \<Rightarrow> req\<lparr>req_outputs := req_outputs req @ [b]\<rparr>))"

text \<open>The inner \<open>forEach\<close> of \<open>assignParams\<close>: one list of parameters, bound in order.\<close>

fun bind_params :: "'w driver \<Rightarrow> operation \<Rightarrow> param list \<Rightarrow> request \<Rightarrow> js_error + request" where
  "bind_params D operation [] req = Inr req"
| "bind_params D operation (p # params) req =
     (case (case param_type p of
              Some t \<Rightarrow> request_bind D operation (Typed (param_name p) t (param_value p)) req
            | None \<Rightarrow> request_bind D operation (Inferred (param_name p) (param_value p)) req) of
        Inl e \<Rightarrow> Inl e
      | Inr req1 \<Rightarrow> bind_params D operation params req1)"

text \<open>\<open>assignParams\<close>: index 0 is the inputs, bound with \<open>input\<close>; index 1 the outputs.\<close>

definition assignParams :: "'w driver \<Rightarrow> request \<Rightarrow> param list \<Rightarrow> param list \<Rightarrow> js_error + request" where
  "assignParams D req inputs outputs =
     (case bind_params D Input inputs req of
        Inl e \<Rightarrow> Inl e
      | Inr req1 \<Rightarrow> bind_params D Output outputs req1)"

text \<open>
  \<open>runCommand\<close>. The promise of the driver's \<open>query\<close> or \<open>execute\<close> is returned without
  \<open>await\<close>: its rejection reaches the caller without passing through the \<open>catch\<close>.
\<close>

definition runCommand :: "'w driver \<Rightarrow> string \<Rightarrow> command_type \<Rightarrow> string \<Rightarrow> param list \<Rightarrow> param list \<Rightarrow> 'w state \<Rightarrow> (js_error + result) \<times> 'w state" where
  "runCommand D poolName commandType command inputs outputs s =
     (case getPool D poolName None s of
        (Inl error, s1) \<Rightarrow>
          (Inl error, logger Err [Txt ''Error running command on pool '', Txt poolName, Txt '': '', ErrF error] s1)
      | (Inr p, s1) \<Rightarrow>
          (case assignParams D new_request inputs outputs of
             Inl error \<Rightarrow>
               (Inl error, logger Err [Txt ''Error running command on pool '', Txt poolName, Txt '': '', ErrF error] s1)
           | Inr req \<Rightarrow>
               (let s2 = logger Info [Txt ''Running command: '', KindF commandType, Txt '' on pool: '', Txt poolName] s1
                in call (RunRequest (pool_id p) commandType command req)
                        (request_run D (pool_id p) commandType command req) s2)))"

text \<open>
  \<open>executeWithEntity\<close>. \<open>runCommand\<close> is an \<open>async\<close> function and its promise is returned
  without \<open>await\<close>, so the \<open>catch\<close> sees none of its failures.
\<close>

definition executeWithEntity :: "'w driver \<Rightarrow> string \<Rightarrow> command_type \<Rightarrow> string \<Rightarrow> entity \<Rightarrow> param list \<Rightarrow> 'w state \<Rightarrow> (js_error + result) \<times> 'w state" where
  "executeWithEntity D poolName commandType command entity outputs s =
     (let s1 = logger Info [Txt ''Executing command with entity on pool: '', Txt poolName] s
      in runCommand D poolName commandType command
           (map (\<lambda>key. \<lparr>param_name = key, param_value = entity_get entity key, param_type = None\<rparr>)
                (object_keys entity))
           outputs s1)"

section \<open>Retry helper\<close>

text \<open>
  \<open>retryOperation\<close>. The operation is a closure of the caller's; it acts on the state
  outside the manager. \<open>retries\<close> and \<open>delay\<close> are JavaScript numbers, here integers.
\<close>

function retryOperation :: "('w \<Rightarrow> (js_error + 'a) \<times> 'w) \<Rightarrow> int \<Rightarrow> int \<Rightarrow> 'w state \<Rightarrow> (js_error + 'a) \<times> 'w state" where
  "retryOperation operation retries delay s =
     (case call Invoke operation s of
        (Inr v, s1) \<Rightarrow> (Inr v, s1)
      | (Inl error, s1) \<Rightarrow>
          if retries > 0
          then (let s2 = logger Warn [Txt ''Operation failed, retrying... Attempts left: '', NumF retries,
                                      Txt ''. Error: '', ErrF error] s1;
                    s3 = s2\<lparr>trace := trace s2 @ [Sleep delay]\<rparr>
                in retryOperation operation (retries - 1) (delay * 2) s3)
          else (Inl error, logger Err [Txt ''Operation failed after retries: '', ErrF error] s1))"
  by pat_completeness auto
termination
  by (relation "measure (\<lambda>(operation, retries, delay, s). nat retries)") auto

section \<open>Bulk loader\<close>

definition bulk_table :: "string \<Rightarrow> column list \<Rightarrow> entity list \<Rightarrow> table" where
  "bulk_table tableName columns entities =
     fold (\<lambda>entity. rows_add (map (\<lambda>col. entity_get entity (col_name col)) columns)) entities
       (fold (\<lambda>column. columns_add (col_name column) (col_type column)
                           (case col_options column of Some opts \<Rightarrow> opts | None \<Rightarrow> []))
             columns (new_Table tableName))"

definition bulkInsert :: "'w driver \<Rightarrow> string \<Rightarrow> string \<Rightarrow> column list \<Rightarrow> entity list \<Rightarrow> 'w state \<Rightarrow> (js_error + unit) \<times> 'w state" where
  "bulkInsert D poolName tableName columns entities s =
     (case getPool D poolName None s of
        (Inl error, s1) \<Rightarrow>
          (Inl error, logger Err [Txt ''Error during bulk insert on pool '', Txt poolName, Txt '': '', ErrF error] s1)
      | (Inr p, s1) \<Rightarrow>
          (let tbl = bulk_table tableName columns entities in
           case call (Bulk (pool_id p) tbl) (request_bulk D (pool_id p) tbl) s1 of
             (Some error, s2) \<Rightarrow>
               (Inl error, logger Err [Txt ''Error during bulk insert on pool '', Txt poolName, Txt '': '', ErrF error] s2)
           | (None, s2) \<Rightarrow>
               (Inr (), logger Info [Txt ''Bulk insert into '', Txt tableName, Txt '' completed on pool: '', Txt poolName] s2)))"

section \<open>Transaction coordinator\<close>

record tx_op =
  op_commandType :: command_type
  op_command :: string
  op_inputs :: "param list option"
  op_outputs :: "param list option"

text \<open>One turn of the \<open>for\<close> loop of \<open>executeTransaction\<close>, on the transaction of pool \<open>p\<close>.\<close>

definition tx_operation :: "'w driver \<Rightarrow> pool \<Rightarrow> tx_op \<Rightarrow> 'w state \<Rightarrow> (js_error + unit) \<times> 'w state" where
  "tx_operation D p op s =
     (case assignParams D new_request
             (case op_inputs op of Some ps \<Rightarrow> ps | None \<Rightarrow> [])
             (case op_outputs op of Some ps \<Rightarrow> ps | None \<Rightarrow> []) of
        Inl error \<Rightarrow> (Inl error, s)
      | Inr req \<Rightarrow>
          (case call (TxRequest (pool_id p) (op_commandType op) (op_command op) req)
                     (tx_request_run D (pool_id p) (op_commandType op) (op_command op) req) s of
             (Inl error, s1) \<Rightarrow> (Inl error, logger Err [Txt ''Transaction operation error: '', ErrF error] s1)
           | (Inr r, s1) \<Rightarrow> (Inr (), s1)))"

fun tx_operations :: "'w driver \<Rightarrow> pool \<Rightarrow> tx_op list \<Rightarrow> 'w state \<Rightarrow> (js_error + unit) \<times> 'w state" where
  "tx_operations D p [] s = (Inr (), s)"
| "tx_operations D p (op # ops) s =
     (case tx_operation D p op s of
        (Inl error, s1) \<Rightarrow> (Inl error, s1)
      | (Inr u, s1) \<Rightarrow> tx_operations D p ops s1)"

text \<open>The \<open>try\<close> block: the loop, then the commit.\<close>

definition tx_try :: "'w driver \<Rightarrow> pool \<Rightarrow> tx_op list \<Rightarrow> 'w state \<Rightarrow> (js_error + unit) \<times> 'w state" where
  "tx_try D p operations s =
     (case tx_operations D p operations s of
        (Inl error, s1) \<Rightarrow> (Inl error, s1)
      | (Inr u, s1) \<Rightarrow>
          (case call (TxCommit (pool_id p)) (tx_commit D (pool_id p)) s1 of
             (Some error, s2) \<Rightarrow> (Inl error, s2)
           | (None, s2) \<Rightarrow> (Inr (), logger Info [Txt ''Transaction committed successfully''] s2)))"

text \<open>The \<open>catch\<close> block: roll back, log a failure of the rollback, rethrow \<open>error\<close>.\<close>

definition tx_catch :: "'w driver \<Rightarrow> pool \<Rightarrow> js_error \<Rightarrow> 'w state \<Rightarrow> (js_error + unit) \<times> 'w state" where
  "tx_catch D p error s =
     (case call (TxRollback (pool_id p)) (tx_rollback D (pool_id p)) s of
        (rb, s1) \<Rightarrow>
          (let s2 = (case rb of
                       Some rollbackError \<Rightarrow> logger Err [Txt ''Transaction rollback error: '', ErrF rollbackError] s1
                     | None \<Rightarrow> s1)
           in (Inl error, logger Err [Txt ''Transaction execution error: '', ErrF error] s2)))"

definition executeTransaction :: "'w driver \<Rightarrow> string \<Rightarrow> tx_op list \<Rightarrow> 'w state \<Rightarrow> (js_error + unit) \<times> 'w state" where
  "executeTransaction D poolName operations s =
     (case getPool D poolName None s of
        (Inl e, s1) \<Rightarrow> (Inl e, s1)
      | (Inr p, s1) \<Rightarrow>
          (case call (TxBegin (pool_id p)) (tx_begin D (pool_id p)) s1 of
             (Some error, s2) \<Rightarrow> (Inl error, logger Err [Txt ''Transaction begin error: '', ErrF error] s2)
           | (None, s2) \<Rightarrow>
               (case tx_try D p operations s2 of
                  (Inr u, s3) \<Rightarrow> (Inr u, s3)
                | (Inl error, s3) \<Rightarrow> tx_catch D p error s3)))"

section \<open>Well-formed states and concrete instances\<close>

text \<open>
  What \<open>setPool\<close>, the only writer of the map, establishes for every entry: the key is
  not empty, the pool's \<open>close\<close> captured the key, and the pool object was allocated
  before the next free address.
\<close>

definition wf_state :: "'w state \<Rightarrow> bool" where
  "wf_state s = list_all (\<lambda>(k, p). k \<noteq> [] \<and> hook_name p = k \<and> pool_id p < next_pool s) (pools s)"

text \<open>The same state with events put in front of its trace.\<close>

definition shift :: "event list \<Rightarrow> 'w state \<Rightarrow> 'w state" where
  "shift t s = s\<lparr>trace := t @ trace s\<rparr>"

text \<open>
  A driver to run the functions on: its state is the list of connected pools; every call
  succeeds, except a transaction request whose command text is \<open>B\<close>.
\<close>

definition request_error :: js_error where
  "request_error = JsError ''RequestError'' ''B failed'' None"

definition demo_driver :: "nat list driver" where
  "demo_driver =
     \<lparr>pool_ctor = (\<lambda>i cfg w. (None, w)),
      pool_connected = (\<lambda>i w. i \<in> set w),
      pool_connecting = (\<lambda>i w. False),
      pool_connect = (\<lambda>i w. (None, i # w)),
      pool_close_orig = (\<lambda>i ks w. (None, removeAll i w)),
      close_settles_at = (\<lambda>i w. i),
      bind_rejects = (\<lambda>operation b req. None),
      request_run = (\<lambda>i k c req w. (Inr [], w)),
      request_bulk = (\<lambda>i tbl w. (None, w)),
      tx_begin = (\<lambda>i w. (None, w)),
      tx_request_run = (\<lambda>i k c req w. (if c = ''B'' then Inl request_error else Inr [], w)),
      tx_commit = (\<lambda>i w. (None, w)),
      tx_rollback = (\<lambda>i w. (None, w))\<rparr>"

definition init_state :: "nat list state" where
  "init_state = \<lparr>pools = [], next_pool = 0, trace = [], world = []\<rparr>"

text \<open>An operation for \<open>retryOperation\<close> that counts its invocations and always fails, and
  one that fails on its first two invocations.\<close>

definition boom :: js_error where
  "boom = JsError ''ConnectionError'' ''boom'' None"

definition retry_state :: "nat state" where
  "retry_state = \<lparr>pools = [], next_pool = 0, trace = [], world = 0\<rparr>"

definition always_boom :: "nat \<Rightarrow> (js_error + nat) \<times> nat" where
  "always_boom w = (Inl boom, Suc w)"

definition boom_twice :: "nat \<Rightarrow> (js_error + nat) \<times> nat" where
  "boom_twice w = (if w < 2 then Inl boom else Inr w, Suc w)"

text \<open>The events that a call added to the trace.\<close>

definition new_events :: "'w state \<Rightarrow> 'w state \<Rightarrow> event list" where
  "new_events s s' = drop (length (trace s)) (trace s')"

text \<open>
  A state with the pool \<open>writePool\<close> registered and connected, two transaction
  operations (\<open>B\<close> is the one the demo driver fails), and the errors of a failing commit
  and of a failing rollback.
\<close>

definition commit_error :: js_error where
  "commit_error = JsError ''TransactionError'' ''commit failed'' None"

definition rollback_error :: js_error where
  "rollback_error = JsError ''TransactionError'' ''rollback failed'' None"

definition op_A :: tx_op where
  "op_A = \<lparr>op_commandType = Query, op_command = ''A'', op_inputs = None, op_outputs = None\<rparr>"

definition op_B :: tx_op where
  "op_B = \<lparr>op_commandType = Execute, op_command = ''B'',
           op_inputs = Some [\<lparr>param_name = ''x'', param_value = JsNum 1, param_type = Some ''Int''\<rparr>],
           op_outputs = None\<rparr>"

definition write_pool :: pool where
  "write_pool = \<lparr>pool_id = 0, hook_name = ''writePool'', pool_config = ''cfgB''\<rparr>"

definition ready_state :: "nat list state" where
  "ready_state = \<lparr>pools = [(''writePool'', write_pool)], next_pool = 1, trace = [], world = [0]\<rparr>"

text \<open>
  A state with two registered pools, and a driver whose underlying \<open>close\<close> fails for
  both: the close of pool 0 settles at time 1, the close of pool 1 at time 5.
\<close>

definition close_error_a :: js_error where
  "close_error_a = JsError ''ConnectionError'' ''close of a failed'' None"

definition close_error_b :: js_error where
  "close_error_b = JsError ''ConnectionError'' ''close of b failed'' None"

definition two_pools :: "nat list state" where
  "two_pools =
     \<lparr>pools = [(''readPool'', \<lparr>pool_id = 0, hook_name = ''readPool'', pool_config = ''cfgA''\<rparr>),
               (''writePool'', \<lparr>pool_id = 1, hook_name = ''writePool'', pool_config = ''cfgB''\<rparr>)],
      next_pool = 2, trace = [], world = [1, 0]\<rparr>"

definition failing_close_driver :: "nat list driver" where
  "failing_close_driver =
     demo_driver\<lparr>pool_close_orig := (\<lambda>i ks w. (Some (if i = 0 then close_error_a else close_error_b), w)),
                 close_settles_at := (\<lambda>i w. if i = 0 then 1 else 5)\<rparr>"

text \<open>
  A driver whose commit fails, whose rollback fails as well, both leaving a mark in the
  driver state (7 and 99), and which rejects the binding of an untyped parameter named
  \<open>bad\<close>; an operation with such a parameter; and a driver whose commit fails while its
  rollback succeeds and leaves the mark 99.
\<close>

definition bind_error :: js_error where
  "bind_error = JsError ''RequestError'' ''Invalid parameter name'' None"

definition marking_driver :: "nat list driver" where
  "marking_driver =
     demo_driver\<lparr>tx_rollback := (\<lambda>i w. (Some rollback_error, 99 # w)),
                 tx_commit := (\<lambda>i w. (Some commit_error, 7 # w)),
                 bind_rejects := (\<lambda>operation b req.
                    case b of Typed n t v \<Rightarrow> None
                            | Inferred n v \<Rightarrow> if n = ''bad'' then Some bind_error else None)\<rparr>"

definition op_C :: tx_op where
  "op_C = \<lparr>op_commandType = Execute, op_command = ''C'',
           op_inputs = Some [\<lparr>param_name = ''bad'', param_value = Null, param_type = None\<rparr>],
           op_outputs = None\<rparr>"

definition commit_failing_driver :: "nat list driver" where
  "commit_failing_driver =
     demo_driver\<lparr>tx_commit := (\<lambda>i w. (Some commit_error, w)),
                 tx_rollback := (\<lambda>i w. (None, 99 # w))\<rparr>"

text \<open>
  A driver whose bulk request puts the number of rows it was given in front of the driver
  state, and fails for a table named \<open>locked\<close>.
\<close>

definition bulk_error :: js_error where
  "bulk_error = JsError ''RequestError'' ''bulk failed'' None"

definition counting_driver :: "nat list driver" where
  "counting_driver =
     demo_driver\<lparr>request_bulk := (\<lambda>i tbl w.
        if table_name tbl = ''locked'' then (Some bulk_error, w)
        else (None, length (table_rows tbl) # w))\<rparr>"

text \<open>
  A driver whose pool constructor throws, and a driver whose underlying \<open>close\<close> fails
  when the key \<open>writePool\<close> is still in the map while it runs.
\<close>

definition ctor_error :: js_error where
  "ctor_error = JsError ''ConnectionError'' ''Invalid server name'' None"

definition ctor_failing_driver :: "nat list driver" where
  "ctor_failing_driver = demo_driver\<lparr>pool_ctor := (\<lambda>i cfg w. (Some ctor_error, w))\<rparr>"

definition zombie_error :: js_error where
  "zombie_error = JsError ''Error'' ''the pool being closed is still registered'' None"

definition zombie_driver :: "nat list driver" where
  "zombie_driver =
     demo_driver\<lparr>pool_close_orig := (\<lambda>i ks w.
        (if ''writePool'' \<in> set ks then Some zombie_error else None, removeAll i w))\<rparr>"

text \<open>
  The input parameters of \<open>executeWithEntity\<close> as the specification words them: one
  parameter per field of the entity, in the iteration order of the fields, carrying the
  field's name and the field's value, and no type.
\<close>

primrec params_of_fields :: "entity \<Rightarrow> string list \<Rightarrow> param list" where
  "params_of_fields entity [] = []"
| "params_of_fields entity (field # rest) =
     \<lparr>param_name = field, param_value = entity_get entity field, param_type = None\<rparr>
       # params_of_fields entity rest"

definition spec_entity_params :: "entity \<Rightarrow> param list" where
  "spec_entity_params entity = params_of_fields entity (object_keys entity)"

text \<open>Columns and entities for a bulk insert; the last entity lacks the column \<open>name\<close>.\<close>

definition user_columns :: "column list" where
  "user_columns =
     [\<lparr>col_name = ''id'', col_type = ''Int'', col_options = None\<rparr>,
      \<lparr>col_name = ''name'', col_type = ''VarChar'', col_options = Some [(''nullable'', JsBool True)]\<rparr>]"

definition user_entities :: "entity list" where
  "user_entities =
     [[(''name'', JsStr ''Ann''), (''id'', JsNum 1)],
      [(''id'', JsNum 2), (''name'', JsStr ''Bob''), (''age'', JsNum 30)],
      [(''id'', JsNum 3)]]"

section \<open>Equality of states\<close>

text \<open>
  A state is its four fields.
\<close>

lemma state_eqI:
  "pools a = pools b \<Longrightarrow> next_pool a = next_pool b \<Longrightarrow> trace a = trace b \<Longrightarrow> world a = world b
   \<Longrightarrow> a = (b :: 'w state)"
  by (cases a, cases b) simp

section \<open>Retry helper: the attempts, the delays and the error\<close>

declare retryOperation.simps [simp del]

lemma retry_success:
  "operation (world s) = (Inr v, w) \<Longrightarrow>
   retryOperation operation retries delay s = (Inr v, s\<lparr>trace := trace s @ [Invoke], world := w\<rparr>)"
  by (subst retryOperation.simps) (simp add: call_def)

lemma retry_exhausted:
  "operation (world s) = (Inl e, w) \<Longrightarrow> \<not> 0 < retries \<Longrightarrow>
   retryOperation operation retries delay s =
     (Inl e, s\<lparr>trace := trace s @ [Invoke, Log Err [Txt ''Operation failed after retries: '', ErrF e]],
               world := w\<rparr>)"
  by (subst retryOperation.simps) (simp add: call_def logger_def)

lemma retry_again:
  "operation (world s) = (Inl e, w) \<Longrightarrow> 0 < retries \<Longrightarrow>
   retryOperation operation retries delay s =
     retryOperation operation (retries - 1) (delay * 2)
       (s\<lparr>world := w,
          trace := trace s @ [Invoke,
              Log Warn [Txt ''Operation failed, retrying... Attempts left: '', NumF retries,
                        Txt ''. Error: '', ErrF e],
              Sleep delay]\<rparr>)"
  by (subst retryOperation.simps) (simp add: call_def logger_def)

text \<open>
  In general, an operation that fails on every invocation is invoked \<open>retries + 1\<close> times
  before \<open>retryOperation\<close> gives up.
\<close>

lemma retry_always_fails:
  assumes "\<And>w. isl (fst (operation w))"
  shows "0 \<le> retries \<Longrightarrow>
     isl (fst (retryOperation operation retries delay s))
     \<and> length (filter (\<lambda>ev. ev = Invoke) (new_events s (snd (retryOperation operation retries delay s))))
         = nat retries + 1"
proof (induction "nat retries" arbitrary: retries delay s)
  case 0
  obtain e w where h: "operation (world s) = (Inl e, w)"
    using assms [of "world s"] by (cases "operation (world s)") (auto simp: isl_def)
  from 0 have "\<not> 0 < retries" by simp
  then show ?case
    using 0 h by (simp add: retry_exhausted new_events_def)
next
  case (Suc n)
  obtain e w where h: "operation (world s) = (Inl e, w)"
    using assms [of "world s"] by (cases "operation (world s)") (auto simp: isl_def)
  from Suc have pos: "0 < retries" and n: "n = nat (retries - 1)" and nn: "0 \<le> retries - 1"
    by simp_all
  let ?s1 = "s\<lparr>world := w,
          trace := trace s @ [Invoke,
              Log Warn [Txt ''Operation failed, retrying... Attempts left: '', NumF retries,
                        Txt ''. Error: '', ErrF e],
              Sleep delay]\<rparr>"
  have ih: "isl (fst (retryOperation operation (retries - 1) (delay * 2) ?s1))
     \<and> length (filter (\<lambda>ev. ev = Invoke)
          (new_events ?s1 (snd (retryOperation operation (retries - 1) (delay * 2) ?s1))))
         = nat (retries - 1) + 1"
    using Suc.hyps(1) [OF n nn] .
  have pre: "\<exists>evs. trace (snd (retryOperation operation r d t)) = trace t @ evs" for r d and t :: "'a state"
  proof (induction operation r d t rule: retryOperation.induct)
    case (1 operation retries delay s)
    show ?case
    proof (cases "operation (world s)")
      case (Pair r w)
      show ?thesis
      proof (cases r)
        case (Inr v)
        with Pair show ?thesis by (simp add: retry_success)
      next
        case (Inl e)
        show ?thesis
        proof (cases "0 < retries")
          case False
          with Pair Inl show ?thesis by (simp add: retry_exhausted)
        next
          case True
          have c: "call Invoke operation s = (Inl e, s\<lparr>trace := trace s @ [Invoke], world := w\<rparr>)"
            using Pair Inl by (simp add: call_def)
          from 1 [OF c [symmetric] refl True refl refl] Pair Inl True
          show ?thesis
            by (auto simp: retry_again logger_def)
        qed
      qed
    qed
  qed
  then obtain evs where evs: "trace (snd (retryOperation operation (retries - 1) (delay * 2) ?s1)) = trace ?s1 @ evs"
    by blast
  show ?case
    using ih pos evs h by (simp add: retry_again new_events_def)
qed

text \<open>
  Claim C3, as the code has it. An operation that fails on every invocation, retried with
  \<open>retries = 2\<close>, is invoked exactly three times, and \<open>retryOperation\<close> then fails with
  the outcome of the third invocation itself: the error of the last attempt is rethrown
  as it is, not wrapped in another error.
\<close>

theorem retryOperation_exhausted_rethrows:
  assumes "\<And>w. isl (fst (operation w))"
  shows "fst (retryOperation operation 2 delay s) =
           fst (operation (snd (operation (snd (operation (world s))))))
       \<and> isl (fst (retryOperation operation 2 delay s))
       \<and> filter (\<lambda>ev. ev = Invoke)
           (drop (length (trace s)) (trace (snd (retryOperation operation 2 delay s))))
           = [Invoke, Invoke, Invoke]
       \<and> world (snd (retryOperation operation 2 delay s)) =
           snd (operation (snd (operation (snd (operation (world s))))))"
proof -
  obtain e1 w1 where h1: "operation (world s) = (Inl e1, w1)"
    using assms [of "world s"] by (cases "operation (world s)") (auto simp: isl_def)
  obtain e2 w2 where h2: "operation w1 = (Inl e2, w2)"
    using assms [of w1] by (cases "operation w1") (auto simp: isl_def)
  obtain e3 w3 where h3: "operation w2 = (Inl e3, w3)"
    using assms [of w2] by (cases "operation w2") (auto simp: isl_def)
  show ?thesis
    by (simp add: h1 h2 h3 retry_again retry_exhausted)
qed

theorem retryOperation_exhausted_rethrows_witness:
  "fst (retryOperation always_boom 2 100 retry_state) = Inl boom
   \<and> filter (\<lambda>ev. ev = Invoke) (trace (snd (retryOperation always_boom 2 100 retry_state)))
       = [Invoke, Invoke, Invoke]
   \<and> world (snd (retryOperation always_boom 2 100 retry_state)) = 3"
  using retryOperation_exhausted_rethrows [of always_boom 100 retry_state]
  by (simp add: always_boom_def retry_state_def)

text \<open>
  The error that comes out for the always-failing operation is the operation's own
  \<open>ConnectionError\<close>: it is not named \<open>ExhaustedRetriesError\<close> and it has no cause.
\<close>

theorem retryOperation_exhausted_not_wrapped:
  "fst (retryOperation always_boom 2 100 retry_state) = Inl boom
   \<and> err_name boom \<noteq> ''ExhaustedRetriesError'' \<and> cause boom \<noteq> Some boom"
  by (simp add: always_boom_def retry_state_def boom_def retry_again retry_exhausted)

text \<open>
  Claim C4. An operation that fails on its first two invocations and succeeds on the
  third, retried with \<open>retries = 3\<close> and \<open>delay = 100\<close>, returns the result of the third
  invocation; the calls made are: the operation, a wait of 100, the operation, a wait of
  200, the operation.
\<close>

theorem retryOperation_backoff:
  assumes "operation (world s) = (Inl e1, w1)"
    and "operation w1 = (Inl e2, w2)"
    and "operation w2 = (Inr v, w3)"
  shows "retryOperation operation 3 100 s =
     (Inr v, s\<lparr>world := w3,
                trace := trace s @
                  [Invoke,
                   Log Warn [Txt ''Operation failed, retrying... Attempts left: '', NumF 3,
                             Txt ''. Error: '', ErrF e1],
                   Sleep 100,
                   Invoke,
                   Log Warn [Txt ''Operation failed, retrying... Attempts left: '', NumF 2,
                             Txt ''. Error: '', ErrF e2],
                   Sleep 200,
                   Invoke]\<rparr>)"
  using assms by (simp add: retry_again retry_success)

theorem retryOperation_backoff_witness:
  "retryOperation boom_twice 3 100 retry_state =
     (Inr 2, \<lparr>pools = [], next_pool = 0,
              trace = [Invoke,
                   Log Warn [Txt ''Operation failed, retrying... Attempts left: '', NumF 3,
                             Txt ''. Error: '', ErrF boom],
                   Sleep 100,
                   Invoke,
                   Log Warn [Txt ''Operation failed, retrying... Attempts left: '', NumF 2,
                             Txt ''. Error: '', ErrF boom],
                   Sleep 200,
                   Invoke],
              world = 3\<rparr>)"
  using retryOperation_backoff [of boom_twice retry_state boom 1 boom 2 2 3]
  by (simp add: boom_twice_def retry_state_def)

section \<open>Transactions: what reaches the caller, and the rollback\<close>

lemma tx_operations_append:
  "tx_operations D p (pre @ ops) s =
     (case tx_operations D p pre s of
        (Inl error, s1) \<Rightarrow> (Inl error, s1)
      | (Inr u, s1) \<Rightarrow> tx_operations D p ops s1)"
  by (induction pre arbitrary: s) (auto split: prod.splits sum.splits)

text \<open>An operation whose bindings the driver accepts and which the driver runs.\<close>

lemma tx_operation_ok:
  assumes "assignParams D new_request (case op_inputs op of Some ps \<Rightarrow> ps | None \<Rightarrow> [])
             (case op_outputs op of Some ps \<Rightarrow> ps | None \<Rightarrow> []) = Inr req"
    and "tx_request_run D (pool_id p) (op_commandType op) (op_command op) req (world s) = (Inr r, w)"
  shows "tx_operation D p op s =
     (Inr (), s\<lparr>trace := trace s @ [TxRequest (pool_id p) (op_commandType op) (op_command op) req],
               world := w\<rparr>)"
  using assms by (simp add: tx_operation_def call_def)

lemma tx_catch_eq:
  assumes "tx_rollback D (pool_id p) (world s) = (rb, w)"
  shows "tx_catch D p error s =
     (Inl error,
      \<lparr>pools = pools s, next_pool = next_pool s,
       trace = trace s @ TxRollback (pool_id p)
         # (case rb of
              Some rollbackError \<Rightarrow> [Log Err [Txt ''Transaction rollback error: '', ErrF rollbackError]]
            | None \<Rightarrow> [])
         @ [Log Err [Txt ''Transaction execution error: '', ErrF error]],
       world = w\<rparr>)"
  using assms
  by (auto simp: tx_catch_def call_def logger_def intro!: state_eqI split: option.splits)

text \<open>
  An error of \<open>assignParams\<close> is an error with which the driver rejected a binding.
\<close>

lemma bind_params_error:
  "bind_params D operation ps req = Inl error \<Longrightarrow> \<exists>b r. bind_rejects D operation b r = Some error"
proof (induction ps arbitrary: req)
  case Nil
  then show ?case by simp
next
  case (Cons q ps)
  then show ?case
    by (auto simp: request_bind_def split: option.splits sum.splits)
qed

lemma assignParams_error:
  "assignParams D req ins outs = Inl error \<Longrightarrow> \<exists>operation b r. bind_rejects D operation b r = Some error"
  by (auto simp: assignParams_def split: sum.splits) (blast dest: bind_params_error)+

text \<open>
  Claim C1. The pool resolves, the driver begins the transaction, and the operations
  \<open>pre\<close> succeed. If the driver then fails the next operation \<open>op\<close> with \<open>error\<close> (first
  implication), or rejects one of its bindings with \<open>error\<close> (second implication), then
  \<open>executeTransaction\<close> calls the driver's \<open>rollback\<close> on the state the failure left: the
  final driver state is the one the rollback returns, the calls made end with the
  rollback, a failure of the rollback is logged and nothing more, and what reaches the
  caller is \<open>error\<close>. The operations after \<open>op\<close> are not run, and nothing is committed.
\<close>

theorem executeTransaction_operation_failure:
  assumes "getPool D poolName None s = (Inr p, s1)"
    and "tx_begin D (pool_id p) (world s1) = (None, w2)"
    and "tx_operations D p pre (s1\<lparr>trace := trace s1 @ [TxBegin (pool_id p)], world := w2\<rparr>) = (Inr (), s3)"
  shows "(assignParams D new_request (case op_inputs op of Some ps \<Rightarrow> ps | None \<Rightarrow> [])
                                     (case op_outputs op of Some ps \<Rightarrow> ps | None \<Rightarrow> []) = Inr req
          \<and> tx_request_run D (pool_id p) (op_commandType op) (op_command op) req (world s3) = (Inl error, w4)
          \<and> tx_rollback D (pool_id p) w4 = (rb, w5)
          \<longrightarrow> executeTransaction D poolName (pre @ op # post) s =
                (Inl error,
                 \<lparr>pools = pools s3, next_pool = next_pool s3,
                  trace = trace s3 @
                    [TxRequest (pool_id p) (op_commandType op) (op_command op) req,
                     Log Err [Txt ''Transaction operation error: '', ErrF error],
                     TxRollback (pool_id p)]
                    @ (case rb of
                         Some rollbackError \<Rightarrow>
                           [Log Err [Txt ''Transaction rollback error: '', ErrF rollbackError]]
                       | None \<Rightarrow> [])
                    @ [Log Err [Txt ''Transaction execution error: '', ErrF error]],
                  world = w5\<rparr>))
       \<and> (assignParams D new_request (case op_inputs op of Some ps \<Rightarrow> ps | None \<Rightarrow> [])
                                       (case op_outputs op of Some ps \<Rightarrow> ps | None \<Rightarrow> []) = Inl error
          \<and> tx_rollback D (pool_id p) (world s3) = (rb, w5)
          \<longrightarrow> executeTransaction D poolName (pre @ op # post) s =
                (Inl error,
                 \<lparr>pools = pools s3, next_pool = next_pool s3,
                  trace = trace s3 @ TxRollback (pool_id p)
                    # (case rb of
                         Some rollbackError \<Rightarrow>
                           [Log Err [Txt ''Transaction rollback error: '', ErrF rollbackError]]
                       | None \<Rightarrow> [])
                    @ [Log Err [Txt ''Transaction execution error: '', ErrF error]],
                  world = w5\<rparr>))"
proof (intro conjI impI)
  let ?s2 = "s1\<lparr>trace := trace s1 @ [TxBegin (pool_id p)], world := w2\<rparr>"
  have b: "call (TxBegin (pool_id p)) (tx_begin D (pool_id p)) s1 = (None, ?s2)"
    using assms(2) by (simp add: call_def)
  have ex: "executeTransaction D poolName ops s =
      (case tx_try D p ops ?s2 of (Inr u, s') \<Rightarrow> (Inr u, s') | (Inl e, s') \<Rightarrow> tx_catch D p e s')" for ops
    using assms(1) b by (simp add: executeTransaction_def)
  {
    assume h: "assignParams D new_request (case op_inputs op of Some ps \<Rightarrow> ps | None \<Rightarrow> [])
                                     (case op_outputs op of Some ps \<Rightarrow> ps | None \<Rightarrow> []) = Inr req
          \<and> tx_request_run D (pool_id p) (op_commandType op) (op_command op) req (world s3) = (Inl error, w4)
          \<and> tx_rollback D (pool_id p) w4 = (rb, w5)"
    let ?s4 = "s3\<lparr>trace := trace s3 @
                    [TxRequest (pool_id p) (op_commandType op) (op_command op) req,
                     Log Err [Txt ''Transaction operation error: '', ErrF error]],
                  world := w4\<rparr>"
    have o: "tx_operation D p op s3 = (Inl error, ?s4)"
      using h by (simp add: tx_operation_def call_def logger_def)
    have t: "tx_try D p (pre @ op # post) ?s2 = (Inl error, ?s4)"
      using assms(3) o by (simp add: tx_try_def tx_operations_append)
    have r: "tx_rollback D (pool_id p) (world ?s4) = (rb, w5)"
      using h by simp
    show "executeTransaction D poolName (pre @ op # post) s =
                (Inl error,
                 \<lparr>pools = pools s3, next_pool = next_pool s3,
                  trace = trace s3 @
                    [TxRequest (pool_id p) (op_commandType op) (op_command op) req,
                     Log Err [Txt ''Transaction operation error: '', ErrF error],
                     TxRollback (pool_id p)]
                    @ (case rb of
                         Some rollbackError \<Rightarrow>
                           [Log Err [Txt ''Transaction rollback error: '', ErrF rollbackError]]
                       | None \<Rightarrow> [])
                    @ [Log Err [Txt ''Transaction execution error: '', ErrF error]],
                  world = w5\<rparr>)"
      by (simp add: ex t tx_catch_eq [OF r])
  }
  {
    assume h: "assignParams D new_request (case op_inputs op of Some ps \<Rightarrow> ps | None \<Rightarrow> [])
                                       (case op_outputs op of Some ps \<Rightarrow> ps | None \<Rightarrow> []) = Inl error
          \<and> tx_rollback D (pool_id p) (world s3) = (rb, w5)"
    have o: "tx_operation D p op s3 = (Inl error, s3)"
      using h by (simp add: tx_operation_def)
    have t: "tx_try D p (pre @ op # post) ?s2 = (Inl error, s3)"
      using assms(3) o by (simp add: tx_try_def tx_operations_append)
    have r: "tx_rollback D (pool_id p) (world s3) = (rb, w5)"
      using h by simp
    show "executeTransaction D poolName (pre @ op # post) s =
                (Inl error,
                 \<lparr>pools = pools s3, next_pool = next_pool s3,
                  trace = trace s3 @ TxRollback (pool_id p)
                    # (case rb of
                         Some rollbackError \<Rightarrow>
                           [Log Err [Txt ''Transaction rollback error: '', ErrF rollbackError]]
                       | None \<Rightarrow> [])
                    @ [Log Err [Txt ''Transaction execution error: '', ErrF error]],
                  world = w5\<rparr>)"
      by (simp add: ex t tx_catch_eq [OF r])
  }
qed

text \<open>
  The theorem at work, with a rollback that fails: \<open>B\<close> is failed by the driver, the
  binding of \<open>C\<close> is rejected.
\<close>

theorem executeTransaction_operation_failure_witness:
  "executeTransaction marking_driver ''writePool'' [op_A, op_B, op_A] ready_state =
     (Inl request_error,
      \<lparr>pools = [(''writePool'', write_pool)], next_pool = 1,
       trace =
         [TxBegin 0,
          TxRequest 0 Query ''A'' \<lparr>req_inputs = [], req_outputs = []\<rparr>,
          TxRequest 0 Execute ''B'' \<lparr>req_inputs = [Typed ''x'' ''Int'' (JsNum 1)], req_outputs = []\<rparr>,
          Log Err [Txt ''Transaction operation error: '', ErrF request_error],
          TxRollback 0,
          Log Err [Txt ''Transaction rollback error: '', ErrF rollback_error],
          Log Err [Txt ''Transaction execution error: '', ErrF request_error]],
       world = [99, 0]\<rparr>)
   \<and> executeTransaction marking_driver ''writePool'' [op_A, op_C] ready_state =
     (Inl bind_error,
      \<lparr>pools = [(''writePool'', write_pool)], next_pool = 1,
       trace =
         [TxBegin 0,
          TxRequest 0 Query ''A'' \<lparr>req_inputs = [], req_outputs = []\<rparr>,
          TxRollback 0,
          Log Err [Txt ''Transaction rollback error: '', ErrF rollback_error],
          Log Err [Txt ''Transaction execution error: '', ErrF bind_error]],
       world = [99, 0]\<rparr>)"
proof -
  let ?D = marking_driver
  let ?s3 = "ready_state\<lparr>trace := [TxBegin 0, TxRequest 0 Query ''A'' \<lparr>req_inputs = [], req_outputs = []\<rparr>]\<rparr>"
  have h1: "getPool ?D ''writePool'' None ready_state = (Inr write_pool, ready_state)"
    by (simp add: getPool_def getPool_try_def marking_driver_def demo_driver_def ready_state_def write_pool_def)
  have h2: "tx_begin ?D (pool_id write_pool) (world ready_state) = (None, [0])"
    by (simp add: marking_driver_def demo_driver_def ready_state_def)
  have h3: "tx_operations ?D write_pool [op_A]
        (ready_state\<lparr>trace := trace ready_state @ [TxBegin (pool_id write_pool)], world := [0]\<rparr>) = (Inr (), ?s3)"
    by (simp add: tx_operation_def assignParams_def new_request_def call_def marking_driver_def
          demo_driver_def ready_state_def write_pool_def op_A_def)
  have b1: "assignParams ?D new_request (case op_inputs op_B of Some ps \<Rightarrow> ps | None \<Rightarrow> [])
              (case op_outputs op_B of Some ps \<Rightarrow> ps | None \<Rightarrow> []) =
            Inr \<lparr>req_inputs = [Typed ''x'' ''Int'' (JsNum 1)], req_outputs = []\<rparr>"
    by (simp add: assignParams_def request_bind_def new_request_def marking_driver_def demo_driver_def op_B_def)
  have b2: "tx_request_run ?D (pool_id write_pool) (op_commandType op_B) (op_command op_B)
              \<lparr>req_inputs = [Typed ''x'' ''Int'' (JsNum 1)], req_outputs = []\<rparr> (world ?s3) = (Inl request_error, [0])"
    by (simp add: marking_driver_def demo_driver_def op_B_def ready_state_def)
  have b3: "tx_rollback ?D (pool_id write_pool) [0] = (Some rollback_error, [99, 0])"
    by (simp add: marking_driver_def demo_driver_def)
  have c1: "assignParams ?D new_request (case op_inputs op_C of Some ps \<Rightarrow> ps | None \<Rightarrow> [])
              (case op_outputs op_C of Some ps \<Rightarrow> ps | None \<Rightarrow> []) = Inl bind_error"
    by (simp add: assignParams_def request_bind_def new_request_def marking_driver_def demo_driver_def op_C_def)
  have c3: "tx_rollback ?D (pool_id write_pool) (world ?s3) = (Some rollback_error, [99, 0])"
    by (simp add: marking_driver_def demo_driver_def ready_state_def)
  from executeTransaction_operation_failure [OF h1 h2 h3, THEN conjunct1, rule_format, OF conjI [OF b1 conjI [OF b2 b3]], of "[op_A]"]
  have r1: "executeTransaction ?D ''writePool'' [op_A, op_B, op_A] ready_state =
     (Inl request_error,
      \<lparr>pools = pools ?s3, next_pool = next_pool ?s3,
       trace = trace ?s3 @
          [TxRequest (pool_id write_pool) (op_commandType op_B) (op_command op_B)
             \<lparr>req_inputs = [Typed ''x'' ''Int'' (JsNum 1)], req_outputs = []\<rparr>,
           Log Err [Txt ''Transaction operation error: '', ErrF request_error],
           TxRollback (pool_id write_pool)]
          @ [Log Err [Txt ''Transaction rollback error: '', ErrF rollback_error]]
          @ [Log Err [Txt ''Transaction execution error: '', ErrF request_error]],
       world = [99, 0]\<rparr>)"
    by simp
  from executeTransaction_operation_failure [OF h1 h2 h3, THEN conjunct2, rule_format, OF conjI [OF c1 c3], of "[]"]
  have r2: "executeTransaction ?D ''writePool'' [op_A, op_C] ready_state =
     (Inl bind_error,
      \<lparr>pools = pools ?s3, next_pool = next_pool ?s3,
       trace = trace ?s3 @ TxRollback (pool_id write_pool)
          # [Log Err [Txt ''Transaction rollback error: '', ErrF rollback_error]]
          @ [Log Err [Txt ''Transaction execution error: '', ErrF bind_error]],
       world = [99, 0]\<rparr>)"
    by simp
  show ?thesis
    unfolding r1 r2 by (simp add: ready_state_def write_pool_def op_B_def)
qed

text \<open>
  Claim C2, as the code has it. The commit is inside the \<open>try\<close> block, so a failing commit
  is caught like a failing operation: the commit's error reaches the caller unchanged,
  and the driver's \<open>rollback\<close> is called right after the failed commit, on the state the
  commit left; a failure of that rollback is logged and nothing more.
\<close>

theorem executeTransaction_commit_failure:
  assumes "getPool D poolName None s = (Inr p, s1)"
    and "tx_begin D (pool_id p) (world s1) = (None, w2)"
    and "tx_operations D p operations (s1\<lparr>trace := trace s1 @ [TxBegin (pool_id p)], world := w2\<rparr>) = (Inr (), s3)"
    and "tx_commit D (pool_id p) (world s3) = (Some error, w4)"
    and "tx_rollback D (pool_id p) w4 = (rb, w5)"
  shows "executeTransaction D poolName operations s =
     (Inl error,
      \<lparr>pools = pools s3, next_pool = next_pool s3,
       trace = trace s3 @ [TxCommit (pool_id p), TxRollback (pool_id p)]
         @ (case rb of
              Some rollbackError \<Rightarrow> [Log Err [Txt ''Transaction rollback error: '', ErrF rollbackError]]
            | None \<Rightarrow> [])
         @ [Log Err [Txt ''Transaction execution error: '', ErrF error]],
       world = w5\<rparr>)"
proof -
  let ?s2 = "s1\<lparr>trace := trace s1 @ [TxBegin (pool_id p)], world := w2\<rparr>"
  let ?s4 = "s3\<lparr>trace := trace s3 @ [TxCommit (pool_id p)], world := w4\<rparr>"
  have b: "call (TxBegin (pool_id p)) (tx_begin D (pool_id p)) s1 = (None, ?s2)"
    using assms(2) by (simp add: call_def)
  have t: "tx_try D p operations ?s2 = (Inl error, ?s4)"
    using assms(3,4) by (simp add: tx_try_def call_def)
  have r: "tx_rollback D (pool_id p) (world ?s4) = (rb, w5)"
    using assms(5) by simp
  show ?thesis
    using assms(1) b by (simp add: executeTransaction_def t tx_catch_eq [OF r])
qed

theorem executeTransaction_commit_failure_witness:
  "executeTransaction marking_driver ''writePool'' [op_A] ready_state =
     (Inl commit_error,
      \<lparr>pools = [(''writePool'', write_pool)], next_pool = 1,
       trace =
         [TxBegin 0,
          TxRequest 0 Query ''A'' \<lparr>req_inputs = [], req_outputs = []\<rparr>,
          TxCommit 0,
          TxRollback 0,
          Log Err [Txt ''Transaction rollback error: '', ErrF rollback_error],
          Log Err [Txt ''Transaction execution error: '', ErrF commit_error]],
       world = [99, 7, 0]\<rparr>)"
proof -
  let ?D = marking_driver
  let ?s3 = "ready_state\<lparr>trace := [TxBegin 0, TxRequest 0 Query ''A'' \<lparr>req_inputs = [], req_outputs = []\<rparr>]\<rparr>"
  have h1: "getPool ?D ''writePool'' None ready_state = (Inr write_pool, ready_state)"
    by (simp add: getPool_def getPool_try_def marking_driver_def demo_driver_def ready_state_def write_pool_def)
  have h2: "tx_begin ?D (pool_id write_pool) (world ready_state) = (None, [0])"
    by (simp add: marking_driver_def demo_driver_def ready_state_def)
  have h3: "tx_operations ?D write_pool [op_A]
        (ready_state\<lparr>trace := trace ready_state @ [TxBegin (pool_id write_pool)], world := [0]\<rparr>) = (Inr (), ?s3)"
    by (simp add: tx_operation_def assignParams_def new_request_def call_def marking_driver_def
          demo_driver_def ready_state_def write_pool_def op_A_def)
  have h4: "tx_commit ?D (pool_id write_pool) (world ?s3) = (Some commit_error, [7, 0])"
    by (simp add: marking_driver_def demo_driver_def ready_state_def)
  have h5: "tx_rollback ?D (pool_id write_pool) [7, 0] = (Some rollback_error, [99, 7, 0])"
    by (simp add: marking_driver_def demo_driver_def)
  show ?thesis
    using executeTransaction_commit_failure [OF h1 h2 h3 h4 h5]
    by (simp add: ready_state_def write_pool_def)
qed

text \<open>
  One operation that succeeds, then a commit that fails: the calls made on the
  transaction end with the commit followed by a rollback, and the rollback has run on
  the driver (its mark 99 is in the final driver state).
\<close>

theorem executeTransaction_commit_failure_rolls_back:
  "executeTransaction commit_failing_driver ''writePool'' [op_A] ready_state =
     (Inl commit_error,
      \<lparr>pools = [(''writePool'', write_pool)], next_pool = 1,
       trace =
         [TxBegin 0,
          TxRequest 0 Query ''A'' \<lparr>req_inputs = [], req_outputs = []\<rparr>,
          TxCommit 0,
          TxRollback 0,
          Log Err [Txt ''Transaction execution error: '', ErrF commit_error]],
       world = [99, 0]\<rparr>)
   \<and> tx_rollback commit_failing_driver 0 [0] = (None, [99, 0])"
  by (simp add: executeTransaction_def getPool_def getPool_try_def tx_try_def tx_catch_def
        tx_operation_def assignParams_def new_request_def call_def logger_def
        commit_failing_driver_def demo_driver_def ready_state_def write_pool_def op_A_def)

section \<open>Pool registry: lookups, the invariant, closing\<close>

lemma setPool_created:
  assumes "name \<noteq> []" and "pool_ctor D (next_pool s) cfg (world s) = (None, w)"
  shows "setPool D name (Some cfg) s =
     (Inr (), s\<lparr>world := w,
                pools := AList.update name \<lparr>pool_id = next_pool s, hook_name = name, pool_config = cfg\<rparr> (pools s),
                next_pool := Suc (next_pool s),
                trace := trace s @ [NewPool (next_pool s) cfg, Log Info [Txt ''Pool set: '', Txt name]]\<rparr>)"
  using assms by (simp add: setPool_def setPool_try_def call_def logger_def)

lemma setPool_empty_name:
  "setPool D [] config s =
     (Inl (Error ''Missing configuration details''),
      s\<lparr>trace := trace s @ [Log Err [Txt ''Failed to set pool...'', ErrF (Error ''Missing configuration details'')]]\<rparr>)"
  by (simp add: setPool_def setPool_try_def logger_def)

lemma getPool_registered:
  assumes "map_of (pools s) name = Some p"
  shows "getPool D name config s =
     (if \<not> pool_connected D (pool_id p) (world s) \<and> \<not> pool_connecting D (pool_id p) (world s)
      then (case pool_connect D (pool_id p) (world s) of
              (None, w) \<Rightarrow> (Inr p, s\<lparr>trace := trace s @ [Connect (pool_id p)], world := w\<rparr>)
            | (Some e, w) \<Rightarrow>
                (Inl e, s\<lparr>world := w,
                          trace := trace s @ [Connect (pool_id p),
                            Log Err [Txt ''Error getting pool '', Txt name, Txt '': '', ErrF e]]\<rparr>))
      else (Inr p, s))"
  using assms
  by (simp add: getPool_def getPool_try_def call_def logger_def split: prod.splits option.splits)

lemma update_absent: "map_of xs k = None \<Longrightarrow> AList.update k v xs = xs @ [(k, v)]"
  by (induction xs) (auto split: if_splits)

text \<open>
  \<open>getPool\<close> on a name that has no entry: without a configuration, with the empty name,
  and with a name that is not empty.
\<close>

lemma getPool_absent_no_config:
  assumes "map_of (pools s) name = None"
  shows "getPool D name None s =
     (Inl (Error (''Configuration for pool '' @ name @ '' not provided'')),
      \<lparr>pools = pools s, next_pool = next_pool s,
       trace = trace s @
         [Log Err [Txt ''Error getting pool '', Txt name, Txt '': '',
                   ErrF (Error (''Configuration for pool '' @ name @ '' not provided''))]],
       world = world s\<rparr>)"
  using assms by (auto simp: getPool_def getPool_try_def logger_def intro!: state_eqI)

lemma getPool_absent_empty_name:
  assumes "map_of (pools s) [] = None"
  shows "getPool D [] (Some cfg) s =
     (Inl (Error ''Missing configuration details''),
      \<lparr>pools = pools s, next_pool = next_pool s,
       trace = trace s @
         [Log Err [Txt ''Failed to set pool...'', ErrF (Error ''Missing configuration details'')],
          Log Err [Txt ''Error getting pool '', Txt [], Txt '': '',
                   ErrF (Error ''Missing configuration details'')]],
       world = world s\<rparr>)"
  using assms
  by (auto simp: getPool_def getPool_try_def setPool_def setPool_try_def logger_def intro!: state_eqI)

lemma getPool_absent_config:
  assumes "map_of (pools s) name = None" and "name \<noteq> []"
  shows "getPool D name (Some cfg) s =
     (case pool_ctor D (next_pool s) cfg (world s) of
        (Some e, w1) \<Rightarrow>
          (Inl e,
           \<lparr>pools = pools s, next_pool = next_pool s,
            trace = trace s @
              [NewPool (next_pool s) cfg,
               Log Err [Txt ''Failed to set pool...'', ErrF e],
               Log Err [Txt ''Error getting pool '', Txt name, Txt '': '', ErrF e]],
            world = w1\<rparr>)
      | (None, w1) \<Rightarrow>
          if \<not> pool_connected D (next_pool s) w1 \<and> \<not> pool_connecting D (next_pool s) w1
          then (case pool_connect D (next_pool s) w1 of
                  (None, w2) \<Rightarrow>
                    (Inr \<lparr>pool_id = next_pool s, hook_name = name, pool_config = cfg\<rparr>,
                     \<lparr>pools = pools s @ [(name, \<lparr>pool_id = next_pool s, hook_name = name, pool_config = cfg\<rparr>)],
                      next_pool = Suc (next_pool s),
                      trace = trace s @
                        [NewPool (next_pool s) cfg, Log Info [Txt ''Pool set: '', Txt name],
                         Connect (next_pool s)],
                      world = w2\<rparr>)
                | (Some e, w2) \<Rightarrow>
                    (Inl e,
                     \<lparr>pools = pools s @ [(name, \<lparr>pool_id = next_pool s, hook_name = name, pool_config = cfg\<rparr>)],
                      next_pool = Suc (next_pool s),
                      trace = trace s @
                        [NewPool (next_pool s) cfg, Log Info [Txt ''Pool set: '', Txt name],
                         Connect (next_pool s),
                         Log Err [Txt ''Error getting pool '', Txt name, Txt '': '', ErrF e]],
                      world = w2\<rparr>))
          else (Inr \<lparr>pool_id = next_pool s, hook_name = name, pool_config = cfg\<rparr>,
                \<lparr>pools = pools s @ [(name, \<lparr>pool_id = next_pool s, hook_name = name, pool_config = cfg\<rparr>)],
                 next_pool = Suc (next_pool s),
                 trace = trace s @ [NewPool (next_pool s) cfg, Log Info [Txt ''Pool set: '', Txt name]],
                 world = w1\<rparr>))"
proof (cases "pool_ctor D (next_pool s) cfg (world s)")
  case (Pair rc w1)
  show ?thesis
  proof (cases rc)
    case (Some e)
    with Pair assms show ?thesis
      by (auto simp: getPool_def getPool_try_def setPool_def setPool_try_def call_def logger_def
            intro!: state_eqI)
  next
    case None
    let ?p = "\<lparr>pool_id = next_pool s, hook_name = name, pool_config = cfg\<rparr>"
    have sp: "setPool D name (Some cfg) s =
       (Inr (), s\<lparr>world := w1,
                  pools := AList.update name ?p (pools s),
                  next_pool := Suc (next_pool s),
                  trace := trace s @ [NewPool (next_pool s) cfg, Log Info [Txt ''Pool set: '', Txt name]]\<rparr>)"
      using assms(2) Pair None by (simp add: setPool_created)
    show ?thesis
      using Pair None assms(1)
      by (auto simp: getPool_def getPool_try_def sp update_conv' update_absent call_def logger_def
            intro!: state_eqI split: prod.splits option.splits)
  qed
qed

lemma list_all_update:
  "list_all P xs \<Longrightarrow> P (k, v) \<Longrightarrow> list_all P (AList.update k v xs)"
  by (induction xs) auto

lemma list_all_delete:
  "list_all P xs \<Longrightarrow> list_all P (AList.delete k xs)"
  by (induction xs) auto

lemma wf_state_init: "wf_state \<lparr>pools = [], next_pool = n, trace = t, world = w\<rparr>"
  by (simp add: wf_state_def)

lemma wf_state_setPool:
  assumes "wf_state s"
  shows "wf_state (snd (setPool D name config s))"
proof -
  have mono: "list_all (\<lambda>(k, p). k \<noteq> [] \<and> hook_name p = k \<and> pool_id p < Suc (next_pool s)) (pools s)"
    using assms unfolding wf_state_def by (auto simp: list_all_iff)
  show ?thesis
    using assms mono
    by (auto simp: wf_state_def setPool_def setPool_try_def call_def logger_def Let_def
          intro!: list_all_update list_all_delete split: prod.splits option.splits)
qed

lemma wf_state_cong:
  "pools s' = pools s \<Longrightarrow> next_pool s' = next_pool s \<Longrightarrow> wf_state s' = wf_state s"
  by (simp add: wf_state_def)

lemma getPool_registry:
  "pools (snd (getPool D name config s)) =
     (if map_of (pools s) name = None \<and> config \<noteq> None
      then pools (snd (setPool D name config s)) else pools s)
   \<and> next_pool (snd (getPool D name config s)) =
     (if map_of (pools s) name = None \<and> config \<noteq> None
      then next_pool (snd (setPool D name config s)) else next_pool s)"
  by (cases config; cases "map_of (pools s) name")
     (simp_all add: getPool_def getPool_try_def call_def logger_def
        split: prod.splits sum.splits option.splits)

lemma wf_state_getPool:
  assumes "wf_state s"
  shows "wf_state (snd (getPool D name config s))"
proof (cases "map_of (pools s) name = None \<and> config \<noteq> None")
  case True
  then have "pools (snd (getPool D name config s)) = pools (snd (setPool D name config s))"
    and "next_pool (snd (getPool D name config s)) = next_pool (snd (setPool D name config s))"
    by (auto simp: getPool_registry)
  then have "wf_state (snd (getPool D name config s)) = wf_state (snd (setPool D name config s))"
    by (rule wf_state_cong)
  then show ?thesis
    using assms by (simp add: wf_state_setPool)
next
  case False
  then have "pools (snd (getPool D name config s)) = pools s"
    and "next_pool (snd (getPool D name config s)) = next_pool s"
    by (auto simp: getPool_registry)
  then have "wf_state (snd (getPool D name config s)) = wf_state s"
    by (rule wf_state_cong)
  then show ?thesis
    using assms by simp
qed

lemma pool_close_registry:
  "pools (snd (pool_close D p s)) = AList.delete (hook_name p) (pools s)
   \<and> next_pool (snd (pool_close D p s)) = next_pool s
   \<and> trace (snd (pool_close D p s)) =
       trace s @ [Log Info [Txt ''Closing pool: '', Txt (hook_name p)], Close (pool_id p)]
   \<and> fst (pool_close D p s) =
       fst (pool_close_orig D (pool_id p) (map fst (AList.delete (hook_name p) (pools s))) (world s))
   \<and> world (snd (pool_close D p s)) =
       snd (pool_close_orig D (pool_id p) (map fst (AList.delete (hook_name p) (pools s))) (world s))"
  by (simp add: pool_close_def call_def logger_def split: prod.splits)

lemma wf_state_pool_close:
  assumes "wf_state s"
  shows "wf_state (snd (pool_close D p s))"
  using assms by (simp add: wf_state_def pool_close_registry list_all_delete)

lemma wf_state_closePool:
  assumes "wf_state s"
  shows "wf_state (snd (closePool D name s))"
proof (cases "map_of (pools s) name")
  case None
  then show ?thesis using assms by (simp add: closePool_def)
next
  case (Some p)
  then have "snd (closePool D name s) = snd (pool_close D p s)"
    by (simp add: closePool_def split: prod.splits option.splits)
  then show ?thesis using assms by (simp add: wf_state_pool_close)
qed

lemma start_closes_Cons:
  "fst (start_closes D (p # ps) s) =
     (close_settles_at D (pool_id p) (world s), fst (pool_close D p s))
       # fst (start_closes D ps (snd (pool_close D p s)))"
  "snd (start_closes D (p # ps) s) = snd (start_closes D ps (snd (pool_close D p s)))"
  by (simp_all add: Let_def split: prod.splits)

lemma start_closes_pools:
  "pools (snd (start_closes D ps s)) = filter (\<lambda>(k, p). k \<notin> hook_name ` set ps) (pools s)"
proof (induction ps arbitrary: s)
  case Nil
  show ?case by simp
next
  case (Cons p ps)
  have "pools (snd (start_closes D (p # ps) s)) = pools (snd (start_closes D ps (snd (pool_close D p s))))"
    by (simp only: start_closes_Cons)
  also have "\<dots> = filter (\<lambda>(k, q). k \<notin> hook_name ` set ps) (AList.delete (hook_name p) (pools s))"
    by (simp add: Cons.IH pool_close_registry)
  also have "\<dots> = filter (\<lambda>(k, q). k \<notin> hook_name ` set (p # ps)) (pools s)"
    by (auto simp: AList.delete_eq intro!: filter_cong)
  finally show ?case .
qed

lemma start_closes_trace:
  "trace (snd (start_closes D ps s)) =
     trace s @ concat (map (\<lambda>p. [Log Info [Txt ''Closing pool: '', Txt (hook_name p)], Close (pool_id p)]) ps)"
proof (induction ps arbitrary: s)
  case Nil
  show ?case by simp
next
  case (Cons p ps)
  have "trace (snd (start_closes D (p # ps) s)) = trace (snd (start_closes D ps (snd (pool_close D p s))))"
    by (simp only: start_closes_Cons)
  then show ?case
    by (simp add: Cons.IH pool_close_registry)
qed

lemma start_closes_next_pool:
  "next_pool (snd (start_closes D ps s)) = next_pool s"
proof (induction ps arbitrary: s)
  case Nil
  show ?case by simp
next
  case (Cons p ps)
  have "next_pool (snd (start_closes D (p # ps) s)) = next_pool (snd (start_closes D ps (snd (pool_close D p s))))"
    by (simp only: start_closes_Cons)
  then show ?case
    by (simp add: Cons.IH pool_close_registry)
qed

lemma start_closes_length:
  "length (fst (start_closes D ps s)) = length ps"
  by (induction ps arbitrary: s) (simp_all only: start_closes_Cons, simp_all)

lemma first_rejection_None:
  "(first_rejection rs = None) = list_all (\<lambda>(t, r). r = None) rs"
  by (induction rs rule: first_rejection.induct) (auto split: option.splits)

lemma first_rejection_Some:
  "first_rejection rs = Some (t, e) \<Longrightarrow>
     (t, Some e) \<in> set rs \<and> list_all (\<lambda>(t', r'). r' = None \<or> t \<le> t') rs"
proof (induction rs arbitrary: t e rule: first_rejection.induct)
  case 1
  then show ?case by simp
next
  case (2 t0 ps)
  then show ?case by auto
next
  case (3 t0 e0 ps)
  show ?case
  proof (cases "first_rejection ps")
    case None
    then have "list_all (\<lambda>(t, r). r = None) ps" by (simp add: first_rejection_None)
    then have "list_all (\<lambda>(t', r'). r' = None \<or> t0 \<le> t') ps"
      by (auto simp: list_all_iff)
    with 3 None show ?thesis by simp
  next
    case (Some te)
    obtain t1 e1 where te: "te = (t1, e1)" by (cases te)
    have ih: "(t1, Some e1) \<in> set ps \<and> list_all (\<lambda>(t', r'). r' = None \<or> t1 \<le> t') ps"
      using 3 Some te by simp
    show ?thesis
    proof (cases "t1 < t0")
      case True
      with 3 Some te ih show ?thesis by auto
    next
      case False
      then have "list_all (\<lambda>(t', r'). r' = None \<or> t0 \<le> t') ps"
        using ih by (auto simp: list_all_iff)
      with 3 Some te ih False show ?thesis by auto
    qed
  qed
qed

lemma fold_max_upper:
  "list_all (\<lambda>t. t \<le> fold max ts (m :: nat)) ts \<and> m \<le> fold max ts m"
proof (induction ts arbitrary: m)
  case Nil
  show ?case by simp
next
  case (Cons t ts)
  have a: "list_all (\<lambda>u. u \<le> fold max ts (max t m)) ts" and b: "max t m \<le> fold max ts (max t m)"
    using Cons.IH [of "max t m"] by simp_all
  from b have "t \<le> fold max ts (max t m)" and "m \<le> fold max ts (max t m)" by simp_all
  with a show ?case by simp
qed

lemma start_closes_append:
  "snd (start_closes D (xs @ ys) s) = snd (start_closes D ys (snd (start_closes D xs s)))"
  by (induction xs arbitrary: s) (simp_all only: append.simps start_closes_Cons, simp_all)

lemma start_closes_nth:
  "k < length ps \<Longrightarrow>
   fst (start_closes D ps s) ! k =
     (close_settles_at D (pool_id (ps ! k)) (world (snd (start_closes D (take k ps) s))),
      fst (pool_close D (ps ! k) (snd (start_closes D (take k ps) s))))"
proof (induction ps arbitrary: s k)
  case Nil
  then show ?case by simp
next
  case (Cons p ps)
  show ?case
  proof (cases k)
    case 0
    then show ?thesis by (simp add: start_closes_Cons del: start_closes.simps(2))
  next
    case (Suc j)
    with Cons.prems have "j < length ps" by simp
    from Cons.IH [OF this, of "snd (pool_close D p s)"] Suc
    show ?thesis by (simp add: start_closes_Cons del: start_closes.simps(2))
  qed
qed

lemma first_rejection_all_fulfil:
  "(\<And>k. k < length rs \<Longrightarrow> snd (rs ! k) = None) \<Longrightarrow> first_rejection rs = None"
  by (simp add: first_rejection_None list_all_length split_beta)

lemma first_rejection_mem:
  "first_rejection rs = Some (t, e) \<Longrightarrow> \<exists>j < length rs. rs ! j = (t, Some e)"
  using first_rejection_Some [of rs t e] by (auto simp: in_set_conv_nth)

lemma first_rejection_earliest:
  assumes "k < length rs" and "rs ! k = (t, Some e)"
    and "\<And>j. j < length rs \<Longrightarrow> snd (rs ! j) \<noteq> None \<Longrightarrow>
           t < fst (rs ! j) \<or> (t = fst (rs ! j) \<and> k \<le> j)"
  shows "first_rejection rs = Some (t, e)"
  using assms
proof (induction rs arbitrary: k)
  case Nil
  then show ?case by simp
next
  case (Cons x rs)
  obtain t0 r0 where x: "x = (t0, r0)" by (cases x)
  show ?case
  proof (cases k)
    case 0
    with Cons.prems(2) x have r0: "r0 = Some e" and t0: "t0 = t" by simp_all
    show ?thesis
    proof (cases "first_rejection rs")
      case None
      then show ?thesis by (simp add: x r0 t0)
    next
      case (Some te)
      obtain t' e' where te: "te = (t', e')" by (cases te)
      from first_rejection_mem [of rs t' e'] Some te
      obtain j where j: "j < length rs" "rs ! j = (t', Some e')" by auto
      from Cons.prems(3) [of "Suc j"] j have "t \<le> t'" by auto
      then show ?thesis using Some te by (simp add: x r0 t0)
    qed
  next
    case (Suc k')
    with Cons.prems have k': "k' < length rs" and nth: "rs ! k' = (t, Some e)" by simp_all
    have later: "t < fst (rs ! j) \<or> (t = fst (rs ! j) \<and> k' \<le> j)"
      if "j < length rs" "snd (rs ! j) \<noteq> None" for j
      using Cons.prems(3) [of "Suc j"] that Suc by auto
    have ih: "first_rejection rs = Some (t, e)"
      using Cons.IH [OF k' nth later] by simp
    show ?thesis
    proof (cases r0)
      case None
      then show ?thesis by (simp add: x ih)
    next
      case (Some e0)
      from Cons.prems(3) [of 0] x Some Suc have "t < t0" by auto
      then show ?thesis by (simp add: x Some ih)
    qed
  qed
qed

text \<open>
  Claim C7, as the code has it. In a well-formed state with \<open>n\<close> pools, the \<open>k\<close>-th
  underlying close is called on pool \<open>pid k\<close>, with the keys \<open>view k\<close> that the map has
  left once the first \<open>k + 1\<close> entries are gone, on the driver state \<open>W k\<close> that the
  closes before it produced; \<open>outcome k\<close> is its result and \<open>tick k\<close> the time at which it
  settles. \<open>closeAllPools\<close> calls the close of every pool, in the order of the map: the
  map ends empty and the driver state is \<open>W n\<close>. If every close succeeds, the call
  succeeds, at the time the last of them settles. If the \<open>k\<close>-th close fails with \<open>e\<close>
  and no other failing close settles before it (nor at the same time, earlier in the
  map), the call fails with \<open>e\<close> alone, at time \<open>tick k\<close>: it does not wait for the
  closes that settle later, and their failures are not part of the result.
\<close>

theorem closeAllPools_first_failure:
  fixes D :: "'w driver" and s :: "'w state"
  defines "n \<equiv> length (pools s)"
    and "pid \<equiv> \<lambda>k. pool_id (snd (pools s ! k))"
    and "view \<equiv> \<lambda>k. filter (\<lambda>x. x \<notin> set (take (Suc k) (map fst (pools s)))) (map fst (pools s))"
  defines "W \<equiv> \<lambda>k. fold (\<lambda>j w. snd (pool_close_orig D (pid j) (view j) w)) [0..<k] (world s)"
  defines "outcome \<equiv> \<lambda>k. fst (pool_close_orig D (pid k) (view k) (W k))"
    and "tick \<equiv> \<lambda>k. close_settles_at D (pid k) (W k)"
  assumes wf: "wf_state s"
  shows "snd (closeAllPools D s) =
           \<lparr>pools = [], next_pool = next_pool s,
            trace = trace s @
              concat (map (\<lambda>(name, p). [Log Info [Txt ''Closing pool: '', Txt name], Close (pool_id p)])
                          (pools s)),
            world = W n\<rparr>
       \<and> ((\<forall>k<n. outcome k = None) \<longrightarrow>
            fst (closeAllPools D s) = Inr ()
            \<and> fst (fst (closeAllPools_promise D s)) = fold max (map tick [0..<n]) 0
            \<and> (\<forall>k<n. tick k \<le> fst (fst (closeAllPools_promise D s))))
       \<and> (\<forall>k e. k < n \<and> outcome k = Some e
                  \<and> (\<forall>j<n. outcome j \<noteq> None \<longrightarrow> tick k < tick j \<or> (tick k = tick j \<and> k \<le> j))
              \<longrightarrow> fst (closeAllPools D s) = Inl e
                  \<and> fst (fst (closeAllPools_promise D s)) = tick k)"
proof -
  let ?ps = "map snd (pools s)"
  let ?names = "map fst (pools s)"
  let ?rs = "fst (start_closes D ?ps s)"
  let ?S = "\<lambda>k. snd (start_closes D (take k ?ps) s)"
  have keys: "list_all (\<lambda>(k, p). hook_name p = k) (pools s)"
    using wf by (auto simp: wf_state_def list_all_iff)
  then have hooks: "map hook_name ?ps = ?names"
    by (auto simp: list_all_iff)
  have hooks_take: "hook_name ` set (take j ?ps) = set (take j ?names)" for j
  proof -
    have "hook_name ` set (take j ?ps) = set (map hook_name (take j ?ps))" by simp
    also have "\<dots> = set (take j (map hook_name ?ps))" by (simp only: take_map)
    finally show ?thesis by (simp only: hooks)
  qed
  have len: "length ?ps = n" by (simp add: n_def)
  have pid: "pool_id (?ps ! k) = pid k" if "k < n" for k
    using that by (simp add: pid_def n_def)
  \<comment> \<open>the keys of the map when the k-th underlying close is called\<close>
  have view_k: "map fst (AList.delete (hook_name (?ps ! k)) (pools (?S k))) = view k" if "k < n" for k
  proof -
    have tk: "take (Suc k) ?ps = take k ?ps @ [?ps ! k]"
      using that len by (simp add: take_Suc_conv_app_nth)
    have "map fst (AList.delete (hook_name (?ps ! k)) (pools (?S k))) =
          map fst (filter (\<lambda>(x, p). x \<notin> hook_name ` set (take (Suc k) ?ps)) (pools s))"
      unfolding tk by (auto simp: start_closes_pools AList.delete_eq intro!: arg_cong [where f = "map fst"] filter_cong)
    also have "\<dots> = filter (\<lambda>x. x \<notin> set (take (Suc k) ?names)) ?names"
      unfolding hooks_take by (simp add: filter_map comp_def case_prod_unfold)
    finally show ?thesis by (simp add: view_def)
  qed
  \<comment> \<open>the driver state before the k-th close\<close>
  have world_k: "k \<le> n \<Longrightarrow> world (?S k) = W k" for k
  proof (induction k)
    case 0
    show ?case by (simp add: W_def)
  next
    case (Suc k)
    then have k: "k < n" and ih: "world (?S k) = W k" by simp_all
    have tk: "take (Suc k) ?ps = take k ?ps @ [?ps ! k]"
      using k len by (simp add: take_Suc_conv_app_nth)
    have "?S (Suc k) = snd (pool_close D (?ps ! k) (?S k))"
      unfolding tk by (simp add: start_closes_append start_closes_Cons del: start_closes.simps(2))
    then have "world (?S (Suc k)) =
        snd (pool_close_orig D (pid k) (view k) (W k))"
      using view_k [OF k] pid [OF k] ih by (simp add: pool_close_registry)
    then show ?case
      by (simp add: W_def)
  qed
  have nth: "?rs ! k = (tick k, outcome k)" if "k < n" for k
  proof -
    have "?rs ! k = (close_settles_at D (pool_id (?ps ! k)) (world (?S k)), fst (pool_close D (?ps ! k) (?S k)))"
      using that len by (intro start_closes_nth) simp
    then show ?thesis
      using view_k [OF that] pid [OF that] world_k [of k] that
      by (simp add: pool_close_registry tick_def outcome_def)
  qed
  have lrs: "length ?rs = n"
    by (simp add: start_closes_length n_def)
  have pr: "closeAllPools_promise D s = (promise_all ?rs, snd (start_closes D ?ps s))"
    by (simp add: closeAllPools_promise_def split_beta)
  have st: "snd (closeAllPools D s) = snd (start_closes D ?ps s)"
    and res: "fst (closeAllPools D s) = snd (promise_all ?rs)"
    by (simp_all add: closeAllPools_def pr split_beta)
  \<comment> \<open>the state after the calls\<close>
  have "filter (\<lambda>(k, p). k \<notin> hook_name ` set ?ps) (pools s) = []"
    using keys by (force simp: filter_empty_conv list_all_iff)
  then have p1: "pools (snd (closeAllPools D s)) = []"
    by (simp add: st start_closes_pools)
  have meq: "concat (map (\<lambda>p. [Log Info [Txt ''Closing pool: '', Txt (hook_name p)], Close (pool_id p)]) ?ps) =
        concat (map (\<lambda>(k, p). [Log Info [Txt ''Closing pool: '', Txt k], Close (pool_id p)]) (pools s))"
    using keys by (intro arg_cong [where f = concat]) (auto simp: list_all_iff)
  have p2: "trace (snd (closeAllPools D s)) = trace s @
        concat (map (\<lambda>(k, p). [Log Info [Txt ''Closing pool: '', Txt k], Close (pool_id p)]) (pools s))"
    by (simp only: st start_closes_trace meq)
  have p3: "next_pool (snd (closeAllPools D s)) = next_pool s"
    by (simp add: st start_closes_next_pool)
  have "take n ?ps = ?ps"
    using len by simp
  then have p4: "world (snd (closeAllPools D s)) = W n"
    using world_k [of n] by (simp add: st)
  have c1: "snd (closeAllPools D s) =
           \<lparr>pools = [], next_pool = next_pool s,
            trace = trace s @
              concat (map (\<lambda>(name, p). [Log Info [Txt ''Closing pool: '', Txt name], Close (pool_id p)])
                          (pools s)),
            world = W n\<rparr>"
    by (rule state_eqI) (simp_all add: p1 p2 p3 p4)
  \<comment> \<open>every close fulfils\<close>
  have ticks: "map fst ?rs = map tick [0..<n]"
    using nth lrs by (intro nth_equalityI) simp_all
  have c2: "(\<forall>k<n. outcome k = None) \<longrightarrow>
            fst (closeAllPools D s) = Inr ()
            \<and> fst (fst (closeAllPools_promise D s)) = fold max (map tick [0..<n]) 0
            \<and> (\<forall>k<n. tick k \<le> fst (fst (closeAllPools_promise D s)))"
  proof
    assume all: "\<forall>k<n. outcome k = None"
    have "first_rejection ?rs = None"
      using all nth lrs by (intro first_rejection_all_fulfil) simp
    then have pa: "promise_all ?rs = (fold max (map fst ?rs) 0, Inr ())"
      by (simp add: promise_all_def)
    have "list_all (\<lambda>t. t \<le> fold max (map fst ?rs) 0) (map fst ?rs)"
      using fold_max_upper [of "map fst ?rs" 0] by simp
    then have "\<forall>k<n. fst (?rs ! k) \<le> fold max (map fst ?rs) 0"
      using lrs by (simp add: list_all_length)
    then have "\<forall>k<n. tick k \<le> fold max (map fst ?rs) 0"
      using nth by simp
    moreover have "fst (fst (closeAllPools_promise D s)) = fold max (map tick [0..<n]) 0"
      by (simp only: pr pa fst_conv ticks)
    ultimately show "fst (closeAllPools D s) = Inr ()
            \<and> fst (fst (closeAllPools_promise D s)) = fold max (map tick [0..<n]) 0
            \<and> (\<forall>k<n. tick k \<le> fst (fst (closeAllPools_promise D s)))"
      by (simp add: res pr pa)
  qed
  \<comment> \<open>the close that rejects first\<close>
  have c3: "\<forall>k e. k < n \<and> outcome k = Some e
                  \<and> (\<forall>j<n. outcome j \<noteq> None \<longrightarrow> tick k < tick j \<or> (tick k = tick j \<and> k \<le> j))
              \<longrightarrow> fst (closeAllPools D s) = Inl e
                  \<and> fst (fst (closeAllPools_promise D s)) = tick k"
  proof (intro allI impI)
    fix k e
    assume h: "k < n \<and> outcome k = Some e
                  \<and> (\<forall>j<n. outcome j \<noteq> None \<longrightarrow> tick k < tick j \<or> (tick k = tick j \<and> k \<le> j))"
    have "first_rejection ?rs = Some (tick k, e)"
    proof (rule first_rejection_earliest [of k])
      show "k < length ?rs" using h lrs by simp
      show "?rs ! k = (tick k, Some e)" using h nth by simp
      fix j assume "j < length ?rs" "snd (?rs ! j) \<noteq> None"
      then show "tick k < fst (?rs ! j) \<or> (tick k = fst (?rs ! j) \<and> k \<le> j)"
        using h nth [of j] lrs by simp
    qed
    then have "promise_all ?rs = (tick k, Inl e)"
      by (simp add: promise_all_def)
    then show "fst (closeAllPools D s) = Inl e \<and> fst (fst (closeAllPools_promise D s)) = tick k"
      by (simp add: res pr)
  qed
  from c1 c2 c3 show ?thesis by blast
qed

theorem closeAllPools_first_failure_witness:
  "wf_state two_pools
   \<and> closeAllPools failing_close_driver two_pools =
       (Inl close_error_a,
        \<lparr>pools = [], next_pool = 2,
         trace = [Log Info [Txt ''Closing pool: '', Txt ''readPool''], Close 0,
                  Log Info [Txt ''Closing pool: '', Txt ''writePool''], Close 1],
         world = [1, 0]\<rparr>)
   \<and> fst (fst (closeAllPools_promise failing_close_driver two_pools)) = 1
   \<and> closeAllPools demo_driver two_pools =
       (Inr (),
        \<lparr>pools = [], next_pool = 2,
         trace = [Log Info [Txt ''Closing pool: '', Txt ''readPool''], Close 0,
                  Log Info [Txt ''Closing pool: '', Txt ''writePool''], Close 1],
         world = []\<rparr>)"
proof -
  have wf: "wf_state two_pools"
    by (simp add: wf_state_def two_pools_def)
  have two: "[0..<2] = [0, Suc 0]" and lt2: "\<And>j. (j < 2) = (j = 0 \<or> j = Suc 0)"
    by (auto simp: upt_rec)
  note f = closeAllPools_first_failure [OF wf, where D = failing_close_driver]
  note g = closeAllPools_first_failure [OF wf, where D = demo_driver]
  have f1: "snd (closeAllPools failing_close_driver two_pools) =
        \<lparr>pools = [], next_pool = 2,
         trace = [Log Info [Txt ''Closing pool: '', Txt ''readPool''], Close 0,
                  Log Info [Txt ''Closing pool: '', Txt ''writePool''], Close 1],
         world = [1, 0]\<rparr>"
    using f [THEN conjunct1]
    by (simp add: two_pools_def failing_close_driver_def demo_driver_def two)
  have f2: "fst (closeAllPools failing_close_driver two_pools) = Inl close_error_a
        \<and> fst (fst (closeAllPools_promise failing_close_driver two_pools)) = 1"
    using f [THEN conjunct2, THEN conjunct2, THEN spec, THEN spec, THEN mp, of 0 close_error_a]
    by (simp add: two_pools_def failing_close_driver_def demo_driver_def two lt2)
  have g1: "snd (closeAllPools demo_driver two_pools) =
        \<lparr>pools = [], next_pool = 2,
         trace = [Log Info [Txt ''Closing pool: '', Txt ''readPool''], Close 0,
                  Log Info [Txt ''Closing pool: '', Txt ''writePool''], Close 1],
         world = []\<rparr>"
    using g [THEN conjunct1]
    by (simp add: two_pools_def demo_driver_def two)
  have g2: "fst (closeAllPools demo_driver two_pools) = Inr ()"
    using g [THEN conjunct2, THEN conjunct1, THEN mp]
    by (simp add: two_pools_def demo_driver_def two lt2)
  have pair: "\<And>x a b. fst x = a \<Longrightarrow> snd x = b \<Longrightarrow> x = (a, b)"
    by auto
  from wf f2 pair [OF f2 [THEN conjunct1] f1] pair [OF g2 g1] show ?thesis
    by simp
qed

text \<open>
  Two pools whose closes both fail, the first at time 1 and the second at time 5: the
  caller gets the first error alone, at time 1.
\<close>

theorem closeAllPools_not_aggregated:
  "pool_close_orig failing_close_driver 0 [''writePool''] [1, 0] = (Some close_error_a, [1, 0])
   \<and> close_settles_at failing_close_driver 0 [1, 0] = 1
   \<and> pool_close_orig failing_close_driver 1 [] [1, 0] = (Some close_error_b, [1, 0])
   \<and> close_settles_at failing_close_driver 1 [1, 0] = 5
   \<and> closeAllPools failing_close_driver two_pools =
       (Inl close_error_a,
        \<lparr>pools = [], next_pool = 2,
         trace = [Log Info [Txt ''Closing pool: '', Txt ''readPool''], Close 0,
                  Log Info [Txt ''Closing pool: '', Txt ''writePool''], Close 1],
         world = [1, 0]\<rparr>)
   \<and> fst (fst (closeAllPools_promise failing_close_driver two_pools)) = 1
   \<and> close_error_b \<noteq> close_error_a \<and> cause close_error_a = None"
  by (simp add: closeAllPools_def closeAllPools_promise_def promise_all_def pool_close_def call_def
        logger_def failing_close_driver_def demo_driver_def two_pools_def
        close_error_a_def close_error_b_def)

text \<open>
  Claim C5, as the code has it. For a name with no entry in the map. Without a
  configuration \<open>getPool\<close> fails with the plain \<open>Error\<close> of message
  \<open>Configuration for pool <name> not provided\<close>; the map, the allocator and the driver are
  untouched. With a configuration and the empty name, \<open>setPool\<close> rejects the name:
  \<open>getPool\<close> fails with \<open>Missing configuration details\<close>, and no pool is created. With a
  configuration and a name that is not empty the driver's constructor is called: if it
  throws, \<open>getPool\<close> fails with its error, nothing is registered and no connect is made;
  otherwise the new pool is appended to the map, and \<open>getPool\<close> returns it, after
  connecting it when it is neither connected nor connecting; if that connect fails,
  \<open>getPool\<close> fails with the connect's error and the new pool stays registered.
\<close>

theorem getPool_absent_name:
  assumes "map_of (pools s) name = None"
  shows "getPool D name None s =
          (Inl (Error (''Configuration for pool '' @ name @ '' not provided'')),
           \<lparr>pools = pools s, next_pool = next_pool s,
            trace = trace s @
              [Log Err [Txt ''Error getting pool '', Txt name, Txt '': '',
                        ErrF (Error (''Configuration for pool '' @ name @ '' not provided''))]],
            world = world s\<rparr>)
       \<and> (name = [] \<longrightarrow>
            getPool D name (Some cfg) s =
              (Inl (Error ''Missing configuration details''),
               \<lparr>pools = pools s, next_pool = next_pool s,
                trace = trace s @
                  [Log Err [Txt ''Failed to set pool...'', ErrF (Error ''Missing configuration details'')],
                   Log Err [Txt ''Error getting pool '', Txt name, Txt '': '',
                            ErrF (Error ''Missing configuration details'')]],
                world = world s\<rparr>))
       \<and> (name \<noteq> [] \<longrightarrow>
            getPool D name (Some cfg) s =
              (case pool_ctor D (next_pool s) cfg (world s) of
            (Some e, w1) \<Rightarrow>
              (Inl e,
               \<lparr>pools = pools s, next_pool = next_pool s,
                trace = trace s @
                  [NewPool (next_pool s) cfg,
                   Log Err [Txt ''Failed to set pool...'', ErrF e],
                   Log Err [Txt ''Error getting pool '', Txt name, Txt '': '', ErrF e]],
                world = w1\<rparr>)
          | (None, w1) \<Rightarrow>
              if \<not> pool_connected D (next_pool s) w1 \<and> \<not> pool_connecting D (next_pool s) w1
              then (case pool_connect D (next_pool s) w1 of
                      (None, w2) \<Rightarrow>
                        (Inr \<lparr>pool_id = next_pool s, hook_name = name, pool_config = cfg\<rparr>,
                         \<lparr>pools = pools s @ [(name, \<lparr>pool_id = next_pool s, hook_name = name, pool_config = cfg\<rparr>)],
                          next_pool = Suc (next_pool s),
                          trace = trace s @
                            [NewPool (next_pool s) cfg, Log Info [Txt ''Pool set: '', Txt name],
                             Connect (next_pool s)],
                          world = w2\<rparr>)
                    | (Some e, w2) \<Rightarrow>
                        (Inl e,
                         \<lparr>pools = pools s @ [(name, \<lparr>pool_id = next_pool s, hook_name = name, pool_config = cfg\<rparr>)],
                          next_pool = Suc (next_pool s),
                          trace = trace s @
                            [NewPool (next_pool s) cfg, Log Info [Txt ''Pool set: '', Txt name],
                             Connect (next_pool s),
                             Log Err [Txt ''Error getting pool '', Txt name, Txt '': '', ErrF e]],
                          world = w2\<rparr>))
              else (Inr \<lparr>pool_id = next_pool s, hook_name = name, pool_config = cfg\<rparr>,
                    \<lparr>pools = pools s @ [(name, \<lparr>pool_id = next_pool s, hook_name = name, pool_config = cfg\<rparr>)],
                     next_pool = Suc (next_pool s),
                     trace = trace s @ [NewPool (next_pool s) cfg, Log Info [Txt ''Pool set: '', Txt name]],
                     world = w1\<rparr>)))"
proof (intro conjI impI)
  show "getPool D name None s =
          (Inl (Error (''Configuration for pool '' @ name @ '' not provided'')),
           \<lparr>pools = pools s, next_pool = next_pool s,
            trace = trace s @
              [Log Err [Txt ''Error getting pool '', Txt name, Txt '': '',
                        ErrF (Error (''Configuration for pool '' @ name @ '' not provided''))]],
            world = world s\<rparr>)"
    using assms by (rule getPool_absent_no_config)
next
  assume n: "name = []"
  have "map_of (pools s) [] = None"
    using assms n by simp
  then show "getPool D name (Some cfg) s =
              (Inl (Error ''Missing configuration details''),
               \<lparr>pools = pools s, next_pool = next_pool s,
                trace = trace s @
                  [Log Err [Txt ''Failed to set pool...'', ErrF (Error ''Missing configuration details'')],
                   Log Err [Txt ''Error getting pool '', Txt name, Txt '': '',
                            ErrF (Error ''Missing configuration details'')]],
                world = world s\<rparr>)"
    unfolding n by (rule getPool_absent_empty_name)
next
  assume "name \<noteq> []"
  with assms show "getPool D name (Some cfg) s =
              (case pool_ctor D (next_pool s) cfg (world s) of
            (Some e, w1) \<Rightarrow>
              (Inl e,
               \<lparr>pools = pools s, next_pool = next_pool s,
                trace = trace s @
                  [NewPool (next_pool s) cfg,
                   Log Err [Txt ''Failed to set pool...'', ErrF e],
                   Log Err [Txt ''Error getting pool '', Txt name, Txt '': '', ErrF e]],
                world = w1\<rparr>)
          | (None, w1) \<Rightarrow>
              if \<not> pool_connected D (next_pool s) w1 \<and> \<not> pool_connecting D (next_pool s) w1
              then (case pool_connect D (next_pool s) w1 of
                      (None, w2) \<Rightarrow>
                        (Inr \<lparr>pool_id = next_pool s, hook_name = name, pool_config = cfg\<rparr>,
                         \<lparr>pools = pools s @ [(name, \<lparr>pool_id = next_pool s, hook_name = name, pool_config = cfg\<rparr>)],
                          next_pool = Suc (next_pool s),
                          trace = trace s @
                            [NewPool (next_pool s) cfg, Log Info [Txt ''Pool set: '', Txt name],
                             Connect (next_pool s)],
                          world = w2\<rparr>)
                    | (Some e, w2) \<Rightarrow>
                        (Inl e,
                         \<lparr>pools = pools s @ [(name, \<lparr>pool_id = next_pool s, hook_name = name, pool_config = cfg\<rparr>)],
                          next_pool = Suc (next_pool s),
                          trace = trace s @
                            [NewPool (next_pool s) cfg, Log Info [Txt ''Pool set: '', Txt name],
                             Connect (next_pool s),
                             Log Err [Txt ''Error getting pool '', Txt name, Txt '': '', ErrF e]],
                          world = w2\<rparr>))
              else (Inr \<lparr>pool_id = next_pool s, hook_name = name, pool_config = cfg\<rparr>,
                    \<lparr>pools = pools s @ [(name, \<lparr>pool_id = next_pool s, hook_name = name, pool_config = cfg\<rparr>)],
                     next_pool = Suc (next_pool s),
                     trace = trace s @ [NewPool (next_pool s) cfg, Log Info [Txt ''Pool set: '', Txt name]],
                     world = w1\<rparr>))"
    by (rule getPool_absent_config)
qed

theorem getPool_absent_name_witness:
  "getPool demo_driver ''readPool'' None init_state =
     (Inl (Error ''Configuration for pool readPool not provided''),
      \<lparr>pools = [], next_pool = 0,
       trace = [Log Err [Txt ''Error getting pool '', Txt ''readPool'', Txt '': '',
                         ErrF (Error ''Configuration for pool readPool not provided'')]],
       world = []\<rparr>)
   \<and> getPool demo_driver ''readPool'' (Some ''cfgA'') init_state =
     (Inr \<lparr>pool_id = 0, hook_name = ''readPool'', pool_config = ''cfgA''\<rparr>,
      \<lparr>pools = [(''readPool'', \<lparr>pool_id = 0, hook_name = ''readPool'', pool_config = ''cfgA''\<rparr>)],
       next_pool = 1,
       trace = [NewPool 0 ''cfgA'', Log Info [Txt ''Pool set: '', Txt ''readPool''], Connect 0],
       world = [0]\<rparr>)
   \<and> getPool ctor_failing_driver ''readPool'' (Some ''cfgA'') init_state =
     (Inl ctor_error,
      \<lparr>pools = [], next_pool = 0,
       trace = [NewPool 0 ''cfgA'',
                Log Err [Txt ''Failed to set pool...'', ErrF ctor_error],
                Log Err [Txt ''Error getting pool '', Txt ''readPool'', Txt '': '', ErrF ctor_error]],
       world = []\<rparr>)
   \<and> getPool demo_driver [] (Some ''cfgA'') init_state =
     (Inl (Error ''Missing configuration details''),
      \<lparr>pools = [], next_pool = 0,
       trace = [Log Err [Txt ''Failed to set pool...'', ErrF (Error ''Missing configuration details'')],
                Log Err [Txt ''Error getting pool '', Txt [], Txt '': '',
                         ErrF (Error ''Missing configuration details'')]],
       world = []\<rparr>)"
proof -
  have h: "map_of (pools init_state) ''readPool'' = None" and h0: "map_of (pools init_state) [] = None"
    by (simp_all add: init_state_def)
  have ne: "''readPool'' \<noteq> []"
    by simp
  note a = getPool_absent_name [OF h, where D = demo_driver and cfg = "''cfgA''"]
  note b = getPool_absent_name [OF h, where D = ctor_failing_driver and cfg = "''cfgA''"]
  note c = getPool_absent_name [OF h0, where D = demo_driver and cfg = "''cfgA''"]
  have a1: "getPool demo_driver ''readPool'' None init_state =
     (Inl (Error ''Configuration for pool readPool not provided''),
      \<lparr>pools = [], next_pool = 0,
       trace = [Log Err [Txt ''Error getting pool '', Txt ''readPool'', Txt '': '',
                         ErrF (Error ''Configuration for pool readPool not provided'')]],
       world = []\<rparr>)"
    using a [THEN conjunct1] by (simp add: init_state_def)
  have a2: "getPool demo_driver ''readPool'' (Some ''cfgA'') init_state =
     (Inr \<lparr>pool_id = 0, hook_name = ''readPool'', pool_config = ''cfgA''\<rparr>,
      \<lparr>pools = [(''readPool'', \<lparr>pool_id = 0, hook_name = ''readPool'', pool_config = ''cfgA''\<rparr>)],
       next_pool = 1,
       trace = [NewPool 0 ''cfgA'', Log Info [Txt ''Pool set: '', Txt ''readPool''], Connect 0],
       world = [0]\<rparr>)"
    using a [THEN conjunct2, THEN conjunct2, rule_format, OF ne]
    by (simp add: init_state_def demo_driver_def)
  have b2: "getPool ctor_failing_driver ''readPool'' (Some ''cfgA'') init_state =
     (Inl ctor_error,
      \<lparr>pools = [], next_pool = 0,
       trace = [NewPool 0 ''cfgA'',
                Log Err [Txt ''Failed to set pool...'', ErrF ctor_error],
                Log Err [Txt ''Error getting pool '', Txt ''readPool'', Txt '': '', ErrF ctor_error]],
       world = []\<rparr>)"
    using b [THEN conjunct2, THEN conjunct2, rule_format, OF ne]
    by (simp add: init_state_def ctor_failing_driver_def demo_driver_def)
  have c2: "getPool demo_driver [] (Some ''cfgA'') init_state =
     (Inl (Error ''Missing configuration details''),
      \<lparr>pools = [], next_pool = 0,
       trace = [Log Err [Txt ''Failed to set pool...'', ErrF (Error ''Missing configuration details'')],
                Log Err [Txt ''Error getting pool '', Txt [], Txt '': '',
                         ErrF (Error ''Missing configuration details'')]],
       world = []\<rparr>)"
    using c [THEN conjunct2, THEN conjunct1, rule_format, OF refl]
    by (simp add: init_state_def)
  from a1 a2 b2 c2 show ?thesis
    by (intro conjI)
qed

text \<open>
  Three calls on a name without an entry that do not do what Claim C5 says: without a
  configuration the error is a plain \<open>Error\<close>, not a \<open>ConfigError\<close>; with a configuration
  and the empty name no pool is created; with a configuration and a constructor that
  throws no pool is created either.
\<close>

theorem getPool_absent_not_as_claimed:
  "getPool demo_driver ''readPool'' None init_state =
     (Inl (Error ''Configuration for pool readPool not provided''),
      \<lparr>pools = [], next_pool = 0,
       trace = [Log Err [Txt ''Error getting pool '', Txt ''readPool'', Txt '': '',
                         ErrF (Error ''Configuration for pool readPool not provided'')]],
       world = []\<rparr>)
   \<and> err_name (Error ''Configuration for pool readPool not provided'') = ''Error''
   \<and> err_name (Error ''Configuration for pool readPool not provided'') \<noteq> ''ConfigError''
   \<and> map_of (pools init_state) [] = None
   \<and> getPool demo_driver [] (Some ''cfgA'') init_state =
     (Inl (Error ''Missing configuration details''),
      \<lparr>pools = [], next_pool = 0,
       trace = [Log Err [Txt ''Failed to set pool...'', ErrF (Error ''Missing configuration details'')],
                Log Err [Txt ''Error getting pool '', Txt [], Txt '': '',
                         ErrF (Error ''Missing configuration details'')]],
       world = []\<rparr>)
   \<and> map_of (pools init_state) ''readPool'' = None
   \<and> getPool ctor_failing_driver ''readPool'' (Some ''cfgA'') init_state =
     (Inl ctor_error,
      \<lparr>pools = [], next_pool = 0,
       trace = [NewPool 0 ''cfgA'',
                Log Err [Txt ''Failed to set pool...'', ErrF ctor_error],
                Log Err [Txt ''Error getting pool '', Txt ''readPool'', Txt '': '', ErrF ctor_error]],
       world = []\<rparr>)"
  by (simp add: getPool_def getPool_try_def setPool_def setPool_try_def call_def logger_def Let_def
        Error_def init_state_def ctor_failing_driver_def demo_driver_def)

text \<open>
  Claim C6, as the code has it. \<open>closePool\<close> on a name without an entry fails with the
  plain \<open>Error\<close> of message \<open>Pool <name> does not exist\<close> and changes nothing. On a
  registered name, in a well-formed state, the underlying close is called with the keys
  of a map that has already lost the entry; whether it succeeds or fails, the entry is
  gone afterwards. A following \<open>getPool\<close> with a configuration then calls the
  constructor for a new pool object, at an address that is not the closed pool's: if
  the constructor throws, \<open>getPool\<close> fails with its error and registers nothing;
  otherwise the new pool is registered under the name and returned, after a connect when
  it is neither connected nor connecting (a failing connect is what \<open>getPool\<close> fails
  with). The closed pool is never returned.
\<close>

theorem closePool_deregisters:
  "(map_of (pools s) name = None \<longrightarrow>
      closePool D name s = (Inl (Error (''Pool '' @ name @ '' does not exist'')), s))
   \<and> (wf_state s \<and> map_of (pools s) name = Some p
       \<and> pool_close_orig D (pool_id p) (map fst (AList.delete name (pools s))) (world s) = (r, w1) \<longrightarrow>
        name \<notin> set (map fst (AList.delete name (pools s)))
        \<and> closePool D name s =
             ((case r of None \<Rightarrow> Inr () | Some e \<Rightarrow> Inl e),
               \<lparr>pools = AList.delete name (pools s), next_pool = next_pool s,
                trace = trace s @ [Log Info [Txt ''Closing pool: '', Txt name], Close (pool_id p)],
                world = w1\<rparr>)
        \<and> map_of (pools (snd (closePool D name s))) name = None
        \<and> pool_id p \<noteq> next_pool s
        \<and> getPool D name (Some cfg) (snd (closePool D name s)) =
            (case pool_ctor D (next_pool s) cfg w1 of
               (Some e, w2) \<Rightarrow>
                 (Inl e,
                  \<lparr>pools = AList.delete name (pools s), next_pool = next_pool s,
                   trace = trace s @
                     [Log Info [Txt ''Closing pool: '', Txt name], Close (pool_id p),
                      NewPool (next_pool s) cfg,
                      Log Err [Txt ''Failed to set pool...'', ErrF e],
                      Log Err [Txt ''Error getting pool '', Txt name, Txt '': '', ErrF e]],
                   world = w2\<rparr>)
             | (None, w2) \<Rightarrow>
                 if \<not> pool_connected D (next_pool s) w2 \<and> \<not> pool_connecting D (next_pool s) w2
                 then (case pool_connect D (next_pool s) w2 of
                         (None, w3) \<Rightarrow>
                           (Inr \<lparr>pool_id = next_pool s, hook_name = name, pool_config = cfg\<rparr>,
                            \<lparr>pools = AList.delete name (pools s) @ [(name, \<lparr>pool_id = next_pool s, hook_name = name, pool_config = cfg\<rparr>)],
                             next_pool = Suc (next_pool s),
                             trace = trace s @
                               [Log Info [Txt ''Closing pool: '', Txt name], Close (pool_id p),
                                NewPool (next_pool s) cfg, Log Info [Txt ''Pool set: '', Txt name],
                                Connect (next_pool s)],
                             world = w3\<rparr>)
                       | (Some e, w3) \<Rightarrow>
                           (Inl e,
                            \<lparr>pools = AList.delete name (pools s) @ [(name, \<lparr>pool_id = next_pool s, hook_name = name, pool_config = cfg\<rparr>)],
                             next_pool = Suc (next_pool s),
                             trace = trace s @
                               [Log Info [Txt ''Closing pool: '', Txt name], Close (pool_id p),
                                NewPool (next_pool s) cfg, Log Info [Txt ''Pool set: '', Txt name],
                                Connect (next_pool s),
                                Log Err [Txt ''Error getting pool '', Txt name, Txt '': '', ErrF e]],
                             world = w3\<rparr>))
                 else (Inr \<lparr>pool_id = next_pool s, hook_name = name, pool_config = cfg\<rparr>,
                       \<lparr>pools = AList.delete name (pools s) @ [(name, \<lparr>pool_id = next_pool s, hook_name = name, pool_config = cfg\<rparr>)],
                        next_pool = Suc (next_pool s),
                        trace = trace s @
                          [Log Info [Txt ''Closing pool: '', Txt name], Close (pool_id p),
                           NewPool (next_pool s) cfg, Log Info [Txt ''Pool set: '', Txt name]],
                        world = w2\<rparr>)))"
proof (intro conjI impI)
  assume "map_of (pools s) name = None"
  then show "closePool D name s = (Inl (Error (''Pool '' @ name @ '' does not exist'')), s)"
    by (simp add: closePool_def)
next
  assume h: "wf_state s \<and> map_of (pools s) name = Some p
       \<and> pool_close_orig D (pool_id p) (map fst (AList.delete name (pools s))) (world s) = (r, w1)"
  then have mem: "(name, p) \<in> set (pools s)"
    by (auto dest: map_of_SomeD)
  with h have hook: "hook_name p = name" and fresh: "pool_id p < next_pool s" and ne: "name \<noteq> []"
    by (auto simp: wf_state_def list_all_iff)
  show gone: "name \<notin> set (map fst (AList.delete name (pools s)))"
    by (auto simp: AList.delete_eq)
  show cp: "closePool D name s =
             ((case r of None \<Rightarrow> Inr () | Some e \<Rightarrow> Inl e),
               \<lparr>pools = AList.delete name (pools s), next_pool = next_pool s,
                trace = trace s @ [Log Info [Txt ''Closing pool: '', Txt name], Close (pool_id p)],
                world = w1\<rparr>)"
    using h
    by (auto simp: closePool_def pool_close_def hook call_def logger_def
          intro!: state_eqI split: option.splits)
  show absent: "map_of (pools (snd (closePool D name s))) name = None"
    by (simp add: cp delete_conv')
  show "pool_id p \<noteq> next_pool s"
    using fresh by simp
  show "getPool D name (Some cfg) (snd (closePool D name s)) =
            (case pool_ctor D (next_pool s) cfg w1 of
               (Some e, w2) \<Rightarrow>
                 (Inl e,
                  \<lparr>pools = AList.delete name (pools s), next_pool = next_pool s,
                   trace = trace s @
                     [Log Info [Txt ''Closing pool: '', Txt name], Close (pool_id p),
                      NewPool (next_pool s) cfg,
                      Log Err [Txt ''Failed to set pool...'', ErrF e],
                      Log Err [Txt ''Error getting pool '', Txt name, Txt '': '', ErrF e]],
                   world = w2\<rparr>)
             | (None, w2) \<Rightarrow>
                 if \<not> pool_connected D (next_pool s) w2 \<and> \<not> pool_connecting D (next_pool s) w2
                 then (case pool_connect D (next_pool s) w2 of
                         (None, w3) \<Rightarrow>
                           (Inr \<lparr>pool_id = next_pool s, hook_name = name, pool_config = cfg\<rparr>,
                            \<lparr>pools = AList.delete name (pools s) @ [(name, \<lparr>pool_id = next_pool s, hook_name = name, pool_config = cfg\<rparr>)],
                             next_pool = Suc (next_pool s),
                             trace = trace s @
                               [Log Info [Txt ''Closing pool: '', Txt name], Close (pool_id p),
                                NewPool (next_pool s) cfg, Log Info [Txt ''Pool set: '', Txt name],
                                Connect (next_pool s)],
                             world = w3\<rparr>)
                       | (Some e, w3) \<Rightarrow>
                           (Inl e,
                            \<lparr>pools = AList.delete name (pools s) @ [(name, \<lparr>pool_id = next_pool s, hook_name = name, pool_config = cfg\<rparr>)],
                             next_pool = Suc (next_pool s),
                             trace = trace s @
                               [Log Info [Txt ''Closing pool: '', Txt name], Close (pool_id p),
                                NewPool (next_pool s) cfg, Log Info [Txt ''Pool set: '', Txt name],
                                Connect (next_pool s),
                                Log Err [Txt ''Error getting pool '', Txt name, Txt '': '', ErrF e]],
                             world = w3\<rparr>))
                 else (Inr \<lparr>pool_id = next_pool s, hook_name = name, pool_config = cfg\<rparr>,
                       \<lparr>pools = AList.delete name (pools s) @ [(name, \<lparr>pool_id = next_pool s, hook_name = name, pool_config = cfg\<rparr>)],
                        next_pool = Suc (next_pool s),
                        trace = trace s @
                          [Log Info [Txt ''Closing pool: '', Txt name], Close (pool_id p),
                           NewPool (next_pool s) cfg, Log Info [Txt ''Pool set: '', Txt name]],
                        world = w2\<rparr>))"
    using getPool_absent_config [OF absent ne, of D cfg]
    by (simp add: cp split: prod.splits option.splits)
qed

text \<open>
  The theorem at work on a driver whose close fails when it still sees the key: the close
  succeeds.
\<close>

theorem closePool_deregisters_witness:
  "closePool zombie_driver ''nope'' ready_state = (Inl (Error ''Pool nope does not exist''), ready_state)
   \<and> ''writePool'' \<notin> set (map fst (AList.delete ''writePool'' (pools ready_state)))
   \<and> closePool zombie_driver ''writePool'' ready_state =
       (Inr (),
        \<lparr>pools = [], next_pool = 1,
         trace = [Log Info [Txt ''Closing pool: '', Txt ''writePool''], Close 0],
         world = []\<rparr>)
   \<and> pool_id write_pool \<noteq> 1
   \<and> getPool zombie_driver ''writePool'' (Some ''fresh'') (snd (closePool zombie_driver ''writePool'' ready_state)) =
       (Inr \<lparr>pool_id = 1, hook_name = ''writePool'', pool_config = ''fresh''\<rparr>,
        \<lparr>pools = [(''writePool'', \<lparr>pool_id = 1, hook_name = ''writePool'', pool_config = ''fresh''\<rparr>)],
         next_pool = 2,
         trace = [Log Info [Txt ''Closing pool: '', Txt ''writePool''], Close 0,
                  NewPool 1 ''fresh'', Log Info [Txt ''Pool set: '', Txt ''writePool''], Connect 1],
         world = [1]\<rparr>)"
proof -
  have no: "map_of (pools ready_state) ''nope'' = None"
    by (simp add: ready_state_def)
  have h: "wf_state ready_state \<and> map_of (pools ready_state) ''writePool'' = Some write_pool
       \<and> pool_close_orig zombie_driver (pool_id write_pool)
            (map fst (AList.delete ''writePool'' (pools ready_state))) (world ready_state) = (None, [])"
    by (simp add: wf_state_def ready_state_def write_pool_def zombie_driver_def demo_driver_def)
  note a = closePool_deregisters [of ready_state "''nope''" zombie_driver write_pool None "[]" "''fresh''",
      THEN conjunct1, rule_format, OF no]
  note b = closePool_deregisters [of ready_state "''writePool''" zombie_driver write_pool None "[]" "''fresh''",
      THEN conjunct2, rule_format, OF h]
  have b1: "''writePool'' \<notin> set (map fst (AList.delete ''writePool'' (pools ready_state)))"
    using b by blast
  have b2: "closePool zombie_driver ''writePool'' ready_state =
       (Inr (),
        \<lparr>pools = [], next_pool = 1,
         trace = [Log Info [Txt ''Closing pool: '', Txt ''writePool''], Close 0],
         world = []\<rparr>)"
    using b [THEN conjunct2, THEN conjunct1] by (simp add: ready_state_def write_pool_def)
  have b3: "pool_id write_pool \<noteq> 1"
    using b [THEN conjunct2, THEN conjunct2, THEN conjunct2, THEN conjunct1]
    by (simp add: ready_state_def)
  have b4: "getPool zombie_driver ''writePool'' (Some ''fresh'') (snd (closePool zombie_driver ''writePool'' ready_state)) =
       (Inr \<lparr>pool_id = 1, hook_name = ''writePool'', pool_config = ''fresh''\<rparr>,
        \<lparr>pools = [(''writePool'', \<lparr>pool_id = 1, hook_name = ''writePool'', pool_config = ''fresh''\<rparr>)],
         next_pool = 2,
         trace = [Log Info [Txt ''Closing pool: '', Txt ''writePool''], Close 0,
                  NewPool 1 ''fresh'', Log Info [Txt ''Pool set: '', Txt ''writePool''], Connect 1],
         world = [1]\<rparr>)"
    using b [THEN conjunct2, THEN conjunct2, THEN conjunct2, THEN conjunct2]
    by (simp add: ready_state_def write_pool_def zombie_driver_def demo_driver_def)
  have a1: "closePool zombie_driver ''nope'' ready_state =
      (Inl (Error ''Pool nope does not exist''), ready_state)"
    using a by simp
  from a1 b1 b2 b3 b4 show ?thesis
    by (intro conjI)
qed

text \<open>
  Two calls that do not do what Claim C6 says: on a name without an entry the error is
  a plain \<open>Error\<close>, not a \<open>NotFoundError\<close>; and after a close, with a constructor that
  throws, \<open>getPool\<close> with a configuration creates no pool.
\<close>

theorem closePool_not_as_claimed:
  "closePool demo_driver ''nope'' ready_state = (Inl (Error ''Pool nope does not exist''), ready_state)
   \<and> err_name (Error ''Pool nope does not exist'') = ''Error''
   \<and> err_name (Error ''Pool nope does not exist'') \<noteq> ''NotFoundError''
   \<and> closePool ctor_failing_driver ''writePool'' ready_state =
       (Inr (),
        \<lparr>pools = [], next_pool = 1,
         trace = [Log Info [Txt ''Closing pool: '', Txt ''writePool''], Close 0],
         world = []\<rparr>)
   \<and> getPool ctor_failing_driver ''writePool'' (Some ''fresh'')
        \<lparr>pools = [], next_pool = 1,
         trace = [Log Info [Txt ''Closing pool: '', Txt ''writePool''], Close 0],
         world = []\<rparr> =
       (Inl ctor_error,
        \<lparr>pools = [], next_pool = 1,
         trace = [Log Info [Txt ''Closing pool: '', Txt ''writePool''], Close 0,
                  NewPool 1 ''fresh'',
                  Log Err [Txt ''Failed to set pool...'', ErrF ctor_error],
                  Log Err [Txt ''Error getting pool '', Txt ''writePool'', Txt '': '', ErrF ctor_error]],
         world = []\<rparr>)"
  by (simp add: closePool_def pool_close_def getPool_def getPool_try_def setPool_def setPool_try_def
        call_def logger_def Let_def Error_def ready_state_def write_pool_def
        ctor_failing_driver_def demo_driver_def)

text \<open>
  Claim C10. \<open>setPool\<close> on a name that has a pool, in a well-formed state and with a
  driver that constructs the new pool: the entry is overwritten in place by the new pool
  object, the only calls made are the constructor and the log line, and the driver's
  state is the one the constructor left. In particular no \<open>close\<close> is called: the replaced
  pool is not closed. (No call of \<open>setPool\<close>, whatever its outcome, calls a \<open>close\<close>.)
\<close>

theorem setPool_replaces_without_close:
  assumes "wf_state s"
    and "map_of (pools s) name = Some old"
    and "pool_ctor D (next_pool s) cfg (world s) = (None, w)"
  shows "fst (setPool D name (Some cfg) s) = Inr ()
       \<and> map_of (pools (snd (setPool D name (Some cfg) s))) name =
           Some \<lparr>pool_id = next_pool s, hook_name = name, pool_config = cfg\<rparr>
       \<and> pool_id old \<noteq> next_pool s
       \<and> map fst (pools (snd (setPool D name (Some cfg) s))) = map fst (pools s)
       \<and> new_events s (snd (setPool D name (Some cfg) s)) =
           [NewPool (next_pool s) cfg, Log Info [Txt ''Pool set: '', Txt name]]
       \<and> world (snd (setPool D name (Some cfg) s)) = w
       \<and> Close i \<notin> set (new_events s (snd (setPool D name config s)))"
proof -
  have mem: "(name, old) \<in> set (pools s)"
    using assms(2) by (rule map_of_SomeD)
  with assms(1) have n: "name \<noteq> []" and fresh: "pool_id old < next_pool s"
    by (auto simp: wf_state_def list_all_iff)
  have key: "name \<in> fst ` set (pools s)"
    using mem by force
  have sp: "setPool D name (Some cfg) s =
     (Inr (), s\<lparr>world := w,
                pools := AList.update name \<lparr>pool_id = next_pool s, hook_name = name, pool_config = cfg\<rparr> (pools s),
                next_pool := Suc (next_pool s),
                trace := trace s @ [NewPool (next_pool s) cfg, Log Info [Txt ''Pool set: '', Txt name]]\<rparr>)"
    using n assms(3) by (rule setPool_created)
  have nc: "Close i \<notin> set (new_events s (snd (setPool D name config s)))"
    by (auto simp: new_events_def setPool_def setPool_try_def call_def logger_def Let_def
          split: prod.splits option.splits if_splits)
  show ?thesis
    using fresh key nc by (simp add: sp new_events_def update_conv' update_keys)
qed

theorem setPool_replaces_without_close_witness:
  "wf_state ready_state
   \<and> map_of (pools ready_state) ''writePool'' = Some write_pool
   \<and> fst (setPool demo_driver ''writePool'' (Some ''cfgC'') ready_state) = Inr ()
   \<and> map_of (pools (snd (setPool demo_driver ''writePool'' (Some ''cfgC'') ready_state))) ''writePool'' =
       Some \<lparr>pool_id = 1, hook_name = ''writePool'', pool_config = ''cfgC''\<rparr>
   \<and> pool_id write_pool \<noteq> 1
   \<and> new_events ready_state (snd (setPool demo_driver ''writePool'' (Some ''cfgC'') ready_state)) =
       [NewPool 1 ''cfgC'', Log Info [Txt ''Pool set: '', Txt ''writePool'']]
   \<and> world (snd (setPool demo_driver ''writePool'' (Some ''cfgC'') ready_state)) = [0]"
proof -
  have wf: "wf_state ready_state"
    by (simp add: wf_state_def ready_state_def write_pool_def)
  have reg: "map_of (pools ready_state) ''writePool'' = Some write_pool"
    by (simp add: ready_state_def)
  have c: "pool_ctor demo_driver (next_pool ready_state) ''cfgC'' (world ready_state) = (None, [0])"
    by (simp add: demo_driver_def ready_state_def)
  show ?thesis
    using setPool_replaces_without_close [OF wf reg c] wf reg
    by (simp add: ready_state_def)
qed

section \<open>Command executor: the trace is never read\<close>

lemma shift_fields:
  "pools (shift t s) = pools s" "next_pool (shift t s) = next_pool s"
  "world (shift t s) = world s" "trace (shift t s) = t @ trace s"
  by (simp_all add: shift_def)

lemma logger_shift: "logger lvl m (shift t s) = shift t (logger lvl m s)"
  by (simp add: logger_def shift_def)

lemma call_shift: "call ev f (shift t s) = (case call ev f s of (r, s') \<Rightarrow> (r, shift t s'))"
  by (simp add: call_def shift_def split: prod.splits)

lemma shift_pools_update: "(shift t s)\<lparr>pools := x\<rparr> = shift t (s\<lparr>pools := x\<rparr>)"
  by (simp add: shift_def)

lemma setPool_try_shift:
  "setPool_try D name config (shift t s) =
     (fst (setPool_try D name config s), shift t (snd (setPool_try D name config s)))"
  by (simp add: setPool_try_def call_def logger_def shift_def Let_def split_beta split: option.split)

lemma setPool_shift:
  "setPool D name config (shift t s) =
     (fst (setPool D name config s), shift t (snd (setPool D name config s)))"
  by (auto simp: setPool_def setPool_try_shift shift_fields logger_shift shift_pools_update
        Let_def split_beta split: sum.split)

lemma getPool_shift:
  "getPool D name config (shift t s) = (case getPool D name config s of (r, s') \<Rightarrow> (r, shift t s'))"
proof -
  have tr: "getPool_try D name config (shift t s) =
      (fst (getPool_try D name config s), shift t (snd (getPool_try D name config s)))"
    by (auto simp: getPool_try_def setPool_shift shift_fields call_shift split_beta
          split: option.split sum.split)
  show ?thesis
    by (simp add: getPool_def tr logger_shift split_beta split: sum.split)
qed

lemma runCommand_shift:
  "runCommand D poolName commandType command inputs outputs (shift t s) =
     (case runCommand D poolName commandType command inputs outputs s of (r, s') \<Rightarrow> (r, shift t s'))"
proof -
  have gp: "getPool D poolName None (shift t s) =
      (fst (getPool D poolName None s), shift t (snd (getPool D poolName None s)))"
    by (simp add: getPool_shift split_beta)
  show ?thesis
    by (simp add: runCommand_def gp logger_shift call_shift Let_def split_beta
          split: sum.split)
qed

lemma params_of_fields_map:
  "params_of_fields entity names =
     map (\<lambda>key. \<lparr>param_name = key, param_value = entity_get entity key, param_type = None\<rparr>) names"
  by (induction names) simp_all

text \<open>
  Claim C8. \<open>executeWithEntity\<close> gives the result of \<open>runCommand\<close> on the parameters
  derived from the entity, and leaves the same map, allocator and driver state; its trace
  is that of \<open>runCommand\<close> after one more log line. The derived parameters are one per
  field, in the order of \<open>Object.keys\<close>, with the field's value and with no type.
\<close>

theorem executeWithEntity_runCommand:
  "fst (executeWithEntity D poolName commandType command entity outputs s) =
     fst (runCommand D poolName commandType command (spec_entity_params entity) outputs s)
   \<and> pools (snd (executeWithEntity D poolName commandType command entity outputs s)) =
       pools (snd (runCommand D poolName commandType command (spec_entity_params entity) outputs s))
   \<and> next_pool (snd (executeWithEntity D poolName commandType command entity outputs s)) =
       next_pool (snd (runCommand D poolName commandType command (spec_entity_params entity) outputs s))
   \<and> world (snd (executeWithEntity D poolName commandType command entity outputs s)) =
       world (snd (runCommand D poolName commandType command (spec_entity_params entity) outputs s))
   \<and> new_events s (snd (executeWithEntity D poolName commandType command entity outputs s)) =
       Log Info [Txt ''Executing command with entity on pool: '', Txt poolName]
         # new_events s (snd (runCommand D poolName commandType command (spec_entity_params entity) outputs s))
   \<and> map param_name (spec_entity_params entity) = object_keys entity
   \<and> map param_value (spec_entity_params entity) = map (entity_get entity) (object_keys entity)
   \<and> map param_type (spec_entity_params entity) = replicate (length (object_keys entity)) None"
proof -
  let ?ps = "spec_entity_params entity"
  let ?L = "Log Info [Txt ''Executing command with entity on pool: '', Txt poolName]"
  let ?s0 = "s\<lparr>trace := []\<rparr>"
  let ?r0 = "runCommand D poolName commandType command ?ps outputs ?s0"
  have e: "executeWithEntity D poolName commandType command entity outputs s =
      runCommand D poolName commandType command ?ps outputs (shift (trace s @ [?L]) ?s0)"
    by (simp add: executeWithEntity_def spec_entity_params_def params_of_fields_map logger_def shift_def)
  have r: "runCommand D poolName commandType command ?ps outputs s =
      runCommand D poolName commandType command ?ps outputs (shift (trace s) ?s0)"
    by (simp add: shift_def)
  have e': "executeWithEntity D poolName commandType command entity outputs s =
      (fst ?r0, shift (trace s @ [?L]) (snd ?r0))"
    unfolding e by (simp add: runCommand_shift split_beta)
  have r': "runCommand D poolName commandType command ?ps outputs s = (fst ?r0, shift (trace s) (snd ?r0))"
    unfolding r by (simp add: runCommand_shift split_beta)
  have m: "map param_name ?ps = object_keys entity
     \<and> map param_value ?ps = map (entity_get entity) (object_keys entity)
     \<and> map param_type ?ps = replicate (length (object_keys entity)) None"
    by (simp add: spec_entity_params_def params_of_fields_map comp_def map_replicate_const)
  show ?thesis
    using m by (simp add: e' r' shift_fields new_events_def)
qed

theorem executeWithEntity_runCommand_witness:
  "fst (executeWithEntity demo_driver ''writePool'' Execute ''INSERT'' [(''name'', JsStr ''Ann''), (''id'', JsNum 1)] [] ready_state) =
     fst (runCommand demo_driver ''writePool'' Execute ''INSERT''
            [\<lparr>param_name = ''name'', param_value = JsStr ''Ann'', param_type = None\<rparr>,
             \<lparr>param_name = ''id'', param_value = JsNum 1, param_type = None\<rparr>] [] ready_state)
   \<and> new_events ready_state
        (snd (executeWithEntity demo_driver ''writePool'' Execute ''INSERT'' [(''name'', JsStr ''Ann''), (''id'', JsNum 1)] [] ready_state)) =
       [Log Info [Txt ''Executing command with entity on pool: '', Txt ''writePool''],
        Log Info [Txt ''Running command: '', KindF Execute, Txt '' on pool: '', Txt ''writePool''],
        RunRequest 0 Execute ''INSERT''
          \<lparr>req_inputs = [Inferred ''name'' (JsStr ''Ann''), Inferred ''id'' (JsNum 1)], req_outputs = []\<rparr>]"
proof -
  have p: "spec_entity_params [(''name'', JsStr ''Ann''), (''id'', JsNum 1)] =
      [\<lparr>param_name = ''name'', param_value = JsStr ''Ann'', param_type = None\<rparr>,
       \<lparr>param_name = ''id'', param_value = JsNum 1, param_type = None\<rparr>]"
    by (simp add: spec_entity_params_def object_keys_def entity_get_def)
  have r: "new_events ready_state (snd (runCommand demo_driver ''writePool'' Execute ''INSERT''
            [\<lparr>param_name = ''name'', param_value = JsStr ''Ann'', param_type = None\<rparr>,
             \<lparr>param_name = ''id'', param_value = JsNum 1, param_type = None\<rparr>] [] ready_state)) =
       [Log Info [Txt ''Running command: '', KindF Execute, Txt '' on pool: '', Txt ''writePool''],
        RunRequest 0 Execute ''INSERT''
          \<lparr>req_inputs = [Inferred ''name'' (JsStr ''Ann''), Inferred ''id'' (JsNum 1)], req_outputs = []\<rparr>]"
    by (simp add: runCommand_def getPool_def getPool_try_def assignParams_def request_bind_def
          new_request_def call_def logger_def new_events_def demo_driver_def ready_state_def write_pool_def)
  show ?thesis
    using executeWithEntity_runCommand [of demo_driver "''writePool''" Execute "''INSERT''"
        "[(''name'', JsStr ''Ann''), (''id'', JsNum 1)]" "[]" ready_state]
    by (simp add: p r)
qed

section \<open>Bulk loader: the rows of the table\<close>

lemma fold_columns_add_rows:
  "table_rows (fold (\<lambda>column. columns_add (f column) (g column) (h column)) columns tbl) = table_rows tbl"
  by (induction columns arbitrary: tbl) (simp_all add: columns_add_def)

lemma fold_columns_add_columns:
  "table_columns (fold (\<lambda>column. columns_add (f column) (g column) (h column)) columns tbl) =
     table_columns tbl @ map (\<lambda>column. (f column, g column, h column)) columns"
  by (induction columns arbitrary: tbl) (simp_all add: columns_add_def)

lemma fold_rows_add_rows:
  "table_rows (fold (\<lambda>entity. rows_add (f entity)) entities tbl) = table_rows tbl @ map f entities"
  by (induction entities arbitrary: tbl) (simp_all add: rows_add_def)

lemma fold_rows_add_columns:
  "table_columns (fold (\<lambda>entity. rows_add (f entity)) entities tbl) = table_columns tbl"
  by (induction entities arbitrary: tbl) (simp_all add: rows_add_def)

lemma bulk_table_rows:
  "table_rows (bulk_table tableName columns entities) =
     map (\<lambda>entity. map (\<lambda>col. entity_get entity (col_name col)) columns) entities"
  by (simp add: bulk_table_def fold_rows_add_rows fold_columns_add_rows new_Table_def)

lemma bulk_table_name: "table_name (bulk_table tableName columns entities) = tableName"
proof -
  have nm: "table_name (fold (\<lambda>entity. rows_add (f entity)) ents tbl) = table_name tbl" for f ents tbl
    by (induction ents arbitrary: tbl) (simp_all add: rows_add_def)
  have nm2: "table_name (fold (\<lambda>column. columns_add (f column) (g column) (h column)) cs tbl) = table_name tbl"
    for f g h cs tbl
    by (induction cs arbitrary: tbl) (simp_all add: columns_add_def)
  show ?thesis
    by (simp add: bulk_table_def nm nm2 new_Table_def)
qed

text \<open>
  A column the entity has as its own property, a column it lacks, and a column it
  inherits from \<open>Object.prototype\<close>.
\<close>

lemma entity_get_own: "map_of entity key = Some v \<Longrightarrow> entity_get entity key = v"
  by (simp add: entity_get_def)

lemma entity_get_inherited:
  "entity_get [(''id'', JsNum 3)] ''constructor'' = JsBuiltin ''Object''
   \<and> entity_get [(''id'', JsNum 3)] ''name'' = Undefined
   \<and> entity_get [(''id'', JsNum 3), (''constructor'', JsStr ''x'')] ''constructor'' = JsStr ''x''"
  by (simp add: entity_get_def object_prototype_def)

text \<open>
  Claim C9. The table that \<open>bulkInsert\<close> builds has one row per entity, in order, each row
  being the values \<open>entity[column]\<close> of the declared columns in the order of their
  declaration: \<open>N\<close> rows for \<open>N\<close> entities, no row for none. Once the pool is resolved,
  \<open>bulkInsert\<close> makes exactly one call to the driver, the bulk request for this table; the
  driver state is the one that request leaves, and \<open>bulkInsert\<close> fails exactly when the
  request does. When the pool cannot be resolved, \<open>bulkInsert\<close> fails with that error and
  nothing is sent.
\<close>

theorem bulkInsert_one_row_per_entity:
  "table_rows (bulk_table tableName columns entities) =
     map (\<lambda>entity. map (\<lambda>col. entity_get entity (col_name col)) columns) entities
   \<and> length (table_rows (bulk_table tableName columns entities)) = length entities
   \<and> table_rows (bulk_table tableName columns []) = []
   \<and> table_name (bulk_table tableName columns entities) = tableName
   \<and> table_columns (bulk_table tableName columns entities) =
       map (\<lambda>column. (col_name column, col_type column,
                        case col_options column of Some opts \<Rightarrow> opts | None \<Rightarrow> [])) columns
   \<and> (getPool D poolName None s = (Inr p, s1)
        \<and> request_bulk D (pool_id p) (bulk_table tableName columns entities) (world s1) = (r, w2)
        \<longrightarrow> bulkInsert D poolName tableName columns entities s =
              ((case r of None \<Rightarrow> Inr () | Some error \<Rightarrow> Inl error),
               \<lparr>pools = pools s1, next_pool = next_pool s1,
                trace = trace s1 @
                  [Bulk (pool_id p) (bulk_table tableName columns entities),
                   (case r of
                      None \<Rightarrow> Log Info [Txt ''Bulk insert into '', Txt tableName,
                                          Txt '' completed on pool: '', Txt poolName]
                    | Some error \<Rightarrow> Log Err [Txt ''Error during bulk insert on pool '', Txt poolName,
                                               Txt '': '', ErrF error])],
                world = w2\<rparr>))
   \<and> (getPool D poolName None s = (Inl e, s1)
        \<longrightarrow> bulkInsert D poolName tableName columns entities s =
              (Inl e,
               \<lparr>pools = pools s1, next_pool = next_pool s1,
                trace = trace s1 @
                  [Log Err [Txt ''Error during bulk insert on pool '', Txt poolName, Txt '': '', ErrF e]],
                world = world s1\<rparr>))"
proof -
  have rows: "table_rows (bulk_table tableName columns ents) =
     map (\<lambda>entity. map (\<lambda>col. entity_get entity (col_name col)) columns) ents" for ents
    by (rule bulk_table_rows)
  have name: "table_name (bulk_table tableName columns entities) = tableName"
    by (rule bulk_table_name)
  have cols: "table_columns (bulk_table tableName columns entities) =
       map (\<lambda>column. (col_name column, col_type column,
                        case col_options column of Some opts \<Rightarrow> opts | None \<Rightarrow> [])) columns"
    by (simp add: bulk_table_def fold_rows_add_columns fold_columns_add_columns new_Table_def)
  have ok: "getPool D poolName None s = (Inr p, s1)
        \<and> request_bulk D (pool_id p) (bulk_table tableName columns entities) (world s1) = (r, w2)
        \<longrightarrow> bulkInsert D poolName tableName columns entities s =
              ((case r of None \<Rightarrow> Inr () | Some error \<Rightarrow> Inl error),
               \<lparr>pools = pools s1, next_pool = next_pool s1,
                trace = trace s1 @
                  [Bulk (pool_id p) (bulk_table tableName columns entities),
                   (case r of
                      None \<Rightarrow> Log Info [Txt ''Bulk insert into '', Txt tableName,
                                          Txt '' completed on pool: '', Txt poolName]
                    | Some error \<Rightarrow> Log Err [Txt ''Error during bulk insert on pool '', Txt poolName,
                                               Txt '': '', ErrF error])],
                world = w2\<rparr>)"
    by (auto simp: bulkInsert_def call_def logger_def Let_def intro!: state_eqI split: option.splits)
  have bad: "getPool D poolName None s = (Inl e, s1)
        \<longrightarrow> bulkInsert D poolName tableName columns entities s =
              (Inl e,
               \<lparr>pools = pools s1, next_pool = next_pool s1,
                trace = trace s1 @
                  [Log Err [Txt ''Error during bulk insert on pool '', Txt poolName, Txt '': '', ErrF e]],
                world = world s1\<rparr>)"
    by (auto simp: bulkInsert_def logger_def intro!: state_eqI)
  from rows [of entities] rows [of "[]"] name cols ok bad show ?thesis
    by simp
qed

theorem bulkInsert_one_row_per_entity_witness:
  "table_rows (bulk_table ''users'' user_columns user_entities) =
     [[JsNum 1, JsStr ''Ann''], [JsNum 2, JsStr ''Bob''], [JsNum 3, Undefined]]
   \<and> bulkInsert counting_driver ''writePool'' ''users'' user_columns user_entities ready_state =
       (Inr (),
        \<lparr>pools = [(''writePool'', write_pool)], next_pool = 1,
         trace = [Bulk 0 (bulk_table ''users'' user_columns user_entities),
                  Log Info [Txt ''Bulk insert into '', Txt ''users'',
                            Txt '' completed on pool: '', Txt ''writePool'']],
         world = [3, 0]\<rparr>)
   \<and> table_rows (bulk_table ''users'' user_columns []) = []
   \<and> bulkInsert counting_driver ''writePool'' ''users'' user_columns [] ready_state =
       (Inr (),
        \<lparr>pools = [(''writePool'', write_pool)], next_pool = 1,
         trace = [Bulk 0 (bulk_table ''users'' user_columns []),
                  Log Info [Txt ''Bulk insert into '', Txt ''users'',
                            Txt '' completed on pool: '', Txt ''writePool'']],
         world = [0, 0]\<rparr>)
   \<and> fst (bulkInsert counting_driver ''nope'' ''users'' user_columns user_entities ready_state) =
       Inl (Error ''Configuration for pool nope not provided'')"
proof -
  let ?D = counting_driver
  have g: "getPool ?D ''writePool'' None ready_state = (Inr write_pool, ready_state)"
    by (simp add: getPool_def getPool_try_def counting_driver_def demo_driver_def ready_state_def write_pool_def)
  have l: "length user_entities = 3"
    by (simp add: user_entities_def)
  have n: "table_name (bulk_table ''users'' user_columns ents) = ''users''" for ents
    by (rule bulk_table_name)
  have len: "length (table_rows (bulk_table ''users'' user_columns ents)) = length ents" for ents
    by (simp add: bulk_table_rows)
  have b3: "request_bulk ?D (pool_id write_pool) (bulk_table ''users'' user_columns user_entities)
        (world ready_state) = (None, [3, 0])"
    by (simp add: counting_driver_def n len l ready_state_def)
  have b0: "request_bulk ?D (pool_id write_pool) (bulk_table ''users'' user_columns [])
        (world ready_state) = (None, [0, 0])"
    by (simp add: counting_driver_def n len ready_state_def)
  have gn: "getPool ?D ''nope'' None ready_state =
      (Inl (Error ''Configuration for pool nope not provided''),
       snd (getPool ?D ''nope'' None ready_state))"
    by (simp add: getPool_def getPool_try_def ready_state_def)
  have rows: "table_rows (bulk_table ''users'' user_columns user_entities) =
     [[JsNum 1, JsStr ''Ann''], [JsNum 2, JsStr ''Bob''], [JsNum 3, Undefined]]"
    using bulkInsert_one_row_per_entity
      [of "''users''" user_columns user_entities ?D "''writePool''" ready_state write_pool ready_state None "[3, 0]"]
    by (simp add: user_columns_def user_entities_def entity_get_def object_prototype_def)
  have rows0: "table_rows (bulk_table ''users'' user_columns []) = []"
    using bulkInsert_one_row_per_entity
      [of "''users''" user_columns "[]" ?D "''writePool''" ready_state write_pool ready_state None "[0, 0]"]
    by simp
  have r3: "bulkInsert ?D ''writePool'' ''users'' user_columns user_entities ready_state =
       (Inr (),
        \<lparr>pools = pools ready_state, next_pool = next_pool ready_state,
         trace = trace ready_state @ [Bulk (pool_id write_pool) (bulk_table ''users'' user_columns user_entities),
                  Log Info [Txt ''Bulk insert into '', Txt ''users'',
                            Txt '' completed on pool: '', Txt ''writePool'']],
         world = [3, 0]\<rparr>)"
    using bulkInsert_one_row_per_entity
      [of "''users''" user_columns user_entities ?D "''writePool''" ready_state write_pool ready_state None "[3, 0]"]
      g b3
    by simp
  have r0: "bulkInsert ?D ''writePool'' ''users'' user_columns [] ready_state =
       (Inr (),
        \<lparr>pools = pools ready_state, next_pool = next_pool ready_state,
         trace = trace ready_state @ [Bulk (pool_id write_pool) (bulk_table ''users'' user_columns []),
                  Log Info [Txt ''Bulk insert into '', Txt ''users'',
                            Txt '' completed on pool: '', Txt ''writePool'']],
         world = [0, 0]\<rparr>)"
    using bulkInsert_one_row_per_entity
      [of "''users''" user_columns "[]" ?D "''writePool''" ready_state write_pool ready_state None "[0, 0]"]
      g b0
    by simp
  have rn: "fst (bulkInsert ?D ''nope'' ''users'' user_columns user_entities ready_state) =
       Inl (Error ''Configuration for pool nope not provided'')"
    using bulkInsert_one_row_per_entity
      [where tableName = "''users''" and columns = user_columns and entities = user_entities and D = ?D
         and poolName = "''nope''" and s = ready_state
         and e = "Error ''Configuration for pool nope not provided''"
         and ?s1.0 = "snd (getPool ?D ''nope'' None ready_state)"]
      gn
    by simp
  show ?thesis
    unfolding r3 r0 using rows rows0 rn
    by (simp add: ready_state_def write_pool_def)
qed

section \<open>Reachable states are well-formed\<close>

text \<open>
  The constructor yields a well-formed state, and with \<open>setPool\<close>, \<open>getPool\<close> and
  \<open>closePool\<close> above, \<open>closeAllPools\<close> and \<open>runCommand\<close> keep it well-formed.
\<close>

lemma wf_state_fold_setPool:
  "wf_state s \<Longrightarrow> wf_state (fold (\<lambda>(name, config) s. snd (setPool D name config s)) configs s)"
  by (induction configs arbitrary: s) (auto simp: wf_state_setPool)

lemma wf_state_DatabaseManager: "wf_state (DatabaseManager D configs w)"
  unfolding DatabaseManager_def by (rule wf_state_fold_setPool) (rule wf_state_init)

lemma wf_state_closeAllPools:
  assumes "wf_state s"
  shows "wf_state (snd (closeAllPools D s))"
proof -
  have "snd (closeAllPools D s) = snd (start_closes D (map snd (pools s)) s)"
    by (simp add: closeAllPools_def closeAllPools_promise_def split_beta)
  then show ?thesis
    using assms
    by (auto simp: wf_state_def start_closes_pools start_closes_next_pool list_all_iff)
qed

lemma wf_state_runCommand:
  assumes "wf_state s"
  shows "wf_state (snd (runCommand D poolName commandType command inputs outputs s))"
proof -
  have "pools (snd (runCommand D poolName commandType command inputs outputs s)) =
          pools (snd (getPool D poolName None s))"
    and "next_pool (snd (runCommand D poolName commandType command inputs outputs s)) =
          next_pool (snd (getPool D poolName None s))"
    by (simp_all add: runCommand_def call_def logger_def Let_def split_beta split: sum.split)
  then have "wf_state (snd (runCommand D poolName commandType command inputs outputs s)) =
      wf_state (snd (getPool D poolName None s))"
    by (rule wf_state_cong)
  then show ?thesis
    using assms by (simp add: wf_state_getPool)
qed

end
